theory Spec2Isabelle
  imports Main
begin

section \<open>The TFS (Git) to GitHub migration script\<close>

text \<open>
  A shallow embedding of \<^verbatim>\<open>final_script_for_clone_and_push_v2.py\<close>. Every function of
  the script that touches the outside world takes the world and returns the new one; an
  exception is the \<open>Inl\<close> of a sum. What the outside world answers (the exit code of an
  external command, an HTTP response, the directories a command creates) is read from an
  environment that the script cannot influence.
\<close>

subsection \<open>Data\<close>

type_synonym path = string
type_synonym command = "string list"
type_synonym headers = "(string \<times> string) list"

text \<open>
  The checkpoint document: \<^verbatim>\<open>{ collection: { project: [repo, ...] } }\<close>. A Python
  dictionary with string keys is a map; the innermost value is a list, as in the code
  (\<^verbatim>\<open>append\<close>).
\<close>

type_synonym checkpoint = "string \<rightharpoonup> (string \<rightharpoonup> string list)"

text \<open>
  The value under \<^verbatim>\<open>specific_branches\<close>: the configuration file gives a string or a
  list of strings. Iterating a Python string yields its characters, one string each.
\<close>

datatype branch_selector = SelStr string | SelList "string list"

fun iterate :: "branch_selector \<Rightarrow> string list" where
  "iterate (SelStr s) = map (\<lambda>c. [c]) s"
| "iterate (SelList bs) = bs"

text \<open>
  The configuration, with every key the script reads by subscript present (a missing
  one is a \<^verbatim>\<open>KeyError\<close> before anything happens) and the optional key as an option.
\<close>

record config =
  azure_devops_organization :: string
  azure_devops_project :: string
  azure_devops_pat_token :: string
  tfs_source_repo :: string
  github_target_repo :: string
  tfs_url :: string
  github_token :: string
  github_organization :: string
  specific_branches :: "branch_selector option"

text \<open>
  An HTTP response as far as the script reads it: the status, the body as text, and the
  \<^verbatim>\<open>name\<close> of every entry of the body's \<^verbatim>\<open>value\<close> list (empty when the key is absent).
\<close>

record response =
  status_code :: int
  body_text :: string
  value_names :: "string list"

text \<open>
  What \<^verbatim>\<open>subprocess.run\<close> meets: the command ran and exited with a return code, or it
  could not be started at all (an \<^verbatim>\<open>OSError\<close>, which is not a
  \<^verbatim>\<open>CalledProcessError\<close>).
\<close>

datatype proc_outcome = Exit int | NotStarted

datatype error =
    CalledProcessError command int
  | OSError command
  | CommandFailedAfter command nat
  | FetchRepositoriesFailed string
  | RepositoryNotFound string
  | RequestException string
  | FileNotFoundError path

datatype level = INFO | WARNING | ERROR

text \<open>One constructor for each logging call of the script, with the values it formats.\<close>

datatype message =
    LoggingInitialized path
  | CheckpointUpdated string string string
  | CommandFailedRetry command nat nat
  | PushingSpecificBranch string
  | SkippingAlreadyMigrated string
  | GithubRepoMissing string
  | CloningAllBranches string
  | CloningDefaultBranch string
  | PushingAllBranches string
  | PushingSelectedBranches branch_selector string
  | ErrorWhileProcessing string error
  | ErrorOccurred error

text \<open>
  What the script does to the outside, in the order it does it. A write of the
  checkpoint file carries the document dumped.
\<close>

datatype event =
    Log level message
  | Run command
  | Sleep nat
  | HttpGet string headers
  | WriteCheckpoint checkpoint
  | Chdir path
  | Makedirs path
  | BasicConfig path
  | Print

text \<open>
  The world. \<open>cwd\<close> and \<open>root_handler\<close> (the log file of the root logger, once
  \<^verbatim>\<open>logging.basicConfig\<close> has configured it) are the state of the process; \<open>dirs\<close> (the
  directories that exist) and \<open>checkpoint_file\<close> (the document in
  \<^verbatim>\<open>tfs_git_checkpoint.json\<close>, \<open>None\<close> when the file does not exist) are the disk. The
  path of the checkpoint file is fixed when the module is loaded, so a change of
  directory does not move it. \<open>ticks\<close> counts the external commands started so far, and
  \<open>trace\<close> is the list of events so far, oldest first.
\<close>

record world =
  cwd :: path
  root_handler :: "path option"
  dirs :: "path set"
  checkpoint_file :: "checkpoint option"
  ticks :: nat
  trace :: "event list"

text \<open>
  The environment: what the outside answers. \<open>run_outcome t c\<close> is the outcome of
  command \<open>c\<close> when it is the \<open>t\<close>-th external command of the run, and \<open>run_creates t c\<close>
  the directories it leaves behind; \<open>http_response\<close> is the answer to a GET (\<open>None\<close>
  when \<^verbatim>\<open>requests.get\<close> raises); \<open>b64encode\<close> and \<open>url_quote\<close> are the library functions
  of those names, and \<open>timestamp\<close> is the formatted time of \<^verbatim>\<open>datetime.now()\<close>.
\<close>

record env =
  run_outcome :: "nat \<Rightarrow> command \<Rightarrow> proc_outcome"
  run_creates :: "nat \<Rightarrow> command \<Rightarrow> path set"
  http_response :: "string \<Rightarrow> headers \<Rightarrow> response option"
  b64encode :: "string \<Rightarrow> string"
  url_quote :: "string \<Rightarrow> string"
  timestamp :: string

subsection \<open>Library calls\<close>

definition emit :: "event \<Rightarrow> world \<Rightarrow> world" where
  "emit e s = s\<lparr>trace := trace s @ [e]\<rparr>"

definition logging :: "level \<Rightarrow> message \<Rightarrow> world \<Rightarrow> world" where
  "logging l m s = emit (Log l m) s"

text \<open>\<^verbatim>\<open>os.path.join\<close> of two components (POSIX).\<close>

definition path_join :: "path \<Rightarrow> path \<Rightarrow> path" where
  "path_join a b =
     (if take 1 b = ''/'' then b
      else if a = [] \<or> last a = CHR ''/'' then a @ b
      else a @ ''/'' @ b)"

text \<open>The proper ancestors of a path: its prefixes that end before a separator.\<close>

definition parents :: "path \<Rightarrow> path list" where
  "parents p = map (\<lambda>i. take i p) (filter (\<lambda>i. p ! i = CHR ''/'') [1..<length p])"

text \<open>\<^verbatim>\<open>os.makedirs(p, exist_ok=True)\<close>: the directory and its ancestors exist afterwards.\<close>

definition makedirs :: "path \<Rightarrow> world \<Rightarrow> world" where
  "makedirs p s = emit (Makedirs p) (s\<lparr>dirs := dirs s \<union> set (parents p) \<union> {p}\<rparr>)"

text \<open>\<^verbatim>\<open>os.path.exists\<close>, asked of directories only.\<close>

definition path_exists :: "path \<Rightarrow> world \<Rightarrow> bool" where
  "path_exists p s = (p \<in> dirs s)"

text \<open>\<^verbatim>\<open>os.chdir\<close>: raises when the directory does not exist.\<close>

definition chdir :: "path \<Rightarrow> world \<Rightarrow> (error + unit) \<times> world" where
  "chdir p s =
     (if p \<in> dirs s then (Inr (), emit (Chdir p) (s\<lparr>cwd := p\<rparr>))
      else (Inl (FileNotFoundError p), s))"

text \<open>\<^verbatim>\<open>time.sleep\<close>.\<close>

definition sleep :: "nat \<Rightarrow> world \<Rightarrow> world" where
  "sleep n s = emit (Sleep n) s"

text \<open>
  \<^verbatim>\<open>logging.basicConfig\<close> with a file handler: configures the root logger unless it has
  a handler already.
\<close>

definition basicConfig :: "path \<Rightarrow> world \<Rightarrow> world" where
  "basicConfig log_path s =
     emit (BasicConfig log_path)
       (s\<lparr>root_handler := (case root_handler s of None \<Rightarrow> Some log_path | Some h \<Rightarrow> Some h)\<rparr>)"

text \<open>
  Opening the checkpoint file for writing and dumping a document into it: the file then
  holds that document (a dictionary of dictionaries of lists of strings, with string
  keys, is what \<^verbatim>\<open>json.load\<close> reads back from what \<^verbatim>\<open>json.dump\<close> wrote).
\<close>

definition write_checkpoint :: "checkpoint \<Rightarrow> world \<Rightarrow> world" where
  "write_checkpoint d s = emit (WriteCheckpoint d) (s\<lparr>checkpoint_file := Some d\<rparr>)"

text \<open>\<^verbatim>\<open>requests.get(url, headers=headers)\<close>.\<close>

definition requests_get :: "env \<Rightarrow> string \<Rightarrow> headers \<Rightarrow> world \<Rightarrow> (error + response) \<times> world" where
  "requests_get E url hs s =
     (case http_response E url hs of
        None \<Rightarrow> (Inl (RequestException url), emit (HttpGet url hs) s)
      | Some r \<Rightarrow> (Inr r, emit (HttpGet url hs) s))"

text \<open>
  \<^verbatim>\<open>subprocess.run(command, check=True)\<close>: starts the command; a return code other than
  zero raises \<^verbatim>\<open>CalledProcessError\<close>.
\<close>

definition subprocess_run :: "env \<Rightarrow> command \<Rightarrow> world \<Rightarrow> (error + unit) \<times> world" where
  "subprocess_run E command s =
     (let s1 = emit (Run command)
                 (s\<lparr>dirs := dirs s \<union> run_creates E (ticks s) command, ticks := Suc (ticks s)\<rparr>)
      in case run_outcome E (ticks s) command of
           NotStarted \<Rightarrow> (Inl (OSError command), s1)
         | Exit rc \<Rightarrow> if rc = 0 then (Inr (), s1) else (Inl (CalledProcessError command rc), s1))"

subsection \<open>The script\<close>

text \<open>\<^verbatim>\<open>setup_logging\<close> (lines 14-26).\<close>

definition setup_logging :: "env \<Rightarrow> path \<Rightarrow> world \<Rightarrow> world" where
  "setup_logging E log_dir s =
     (let log_filename = ''script_log_'' @ timestamp E @ ''.log'';
          log_path = path_join log_dir log_filename
      in logging INFO (LoggingInitialized log_path) (basicConfig log_path s))"

text \<open>\<^verbatim>\<open>get_auth_header\<close> (lines 34-38) and \<^verbatim>\<open>get_github_auth_header\<close> (lines 40-42).\<close>

definition get_auth_header :: "env \<Rightarrow> string \<Rightarrow> headers" where
  "get_auth_header E pat = [(''Authorization'', ''Basic '' @ b64encode E ('':'' @ pat))]"

definition get_github_auth_header :: "string \<Rightarrow> headers" where
  "get_github_auth_header token = [(''Authorization'', ''token '' @ token)]"

text \<open>
  The membership test of line 149, which is also the three tests of
  \<^verbatim>\<open>save_checkpoint\<close> together: the collection is a key, the project is a key under it,
  and the repository is in the list.
\<close>

definition recorded :: "checkpoint \<Rightarrow> string \<Rightarrow> string \<Rightarrow> string \<Rightarrow> bool" where
  "recorded ck collection_name project_name repo_name =
     (case ck collection_name of
        None \<Rightarrow> False
      | Some projects \<Rightarrow>
          (case projects project_name of
             None \<Rightarrow> False
           | Some repos \<Rightarrow> repo_name \<in> set repos))"

text \<open>
  \<^verbatim>\<open>save_checkpoint\<close> (lines 44-61). The document is read when the file exists and is
  empty otherwise; a missing collection or project is created empty in memory; the file
  is written, and the message logged, only when the repository is not in the list.
\<close>

definition save_checkpoint :: "string \<Rightarrow> string \<Rightarrow> string \<Rightarrow> world \<Rightarrow> world" where
  "save_checkpoint collection_name project_name repo_name s =
     (let checkpoint = (case checkpoint_file s of None \<Rightarrow> Map.empty | Some d \<Rightarrow> d);
          projects = (case checkpoint collection_name of None \<Rightarrow> Map.empty | Some ps \<Rightarrow> ps);
          repos = (case projects project_name of None \<Rightarrow> [] | Some rs \<Rightarrow> rs)
      in if repo_name \<notin> set repos then
           logging INFO (CheckpointUpdated repo_name collection_name project_name)
             (write_checkpoint
               (checkpoint(collection_name \<mapsto> projects(project_name \<mapsto> repos @ [repo_name]))) s)
         else s)"

text \<open>\<^verbatim>\<open>load_checkpoint\<close> (lines 63-69): a missing file is created with the empty document.\<close>

definition load_checkpoint :: "world \<Rightarrow> checkpoint \<times> world" where
  "load_checkpoint s =
     (case checkpoint_file s of
        None \<Rightarrow> (Map.empty, write_checkpoint Map.empty s)
      | Some d \<Rightarrow> (d, s))"

text \<open>
  \<^verbatim>\<open>retry_subprocess\<close> (lines 71-80). The loop runs over \<^verbatim>\<open>range(retries)\<close>; only a
  \<^verbatim>\<open>CalledProcessError\<close> is caught, logged and slept on, anything else leaves the loop.
  The bound is a natural number: the range of a negative bound is as empty as that of 0.
\<close>

fun retry_attempts :: "env \<Rightarrow> command \<Rightarrow> nat \<Rightarrow> nat list \<Rightarrow> world \<Rightarrow> (error + unit) \<times> world" where
  "retry_attempts E command retries [] s = (Inl (CommandFailedAfter command retries), s)"
| "retry_attempts E command retries (attempt # rest) s =
     (case subprocess_run E command s of
        (Inr u, s1) \<Rightarrow> (Inr (), s1)
      | (Inl e, s1) \<Rightarrow>
          (case e of
             CalledProcessError c rc \<Rightarrow>
               retry_attempts E command retries rest
                 (sleep (2 ^ attempt)
                   (logging WARNING (CommandFailedRetry command (attempt + 1) retries) s1))
           | _ \<Rightarrow> (Inl e, s1)))"

definition retry_subprocess :: "env \<Rightarrow> command \<Rightarrow> nat \<Rightarrow> world \<Rightarrow> (error + unit) \<times> world" where
  "retry_subprocess E command retries s = retry_attempts E command retries [0..<retries] s"

text \<open>\<^verbatim>\<open>migrate_specific_branches\<close> (lines 82-87); both calls use the default bound 3.\<close>

fun migrate_specific_branches ::
  "env \<Rightarrow> path \<Rightarrow> string \<Rightarrow> string list \<Rightarrow> world \<Rightarrow> (error + unit) \<times> world" where
  "migrate_specific_branches E repo_dir github_repo_url [] s = (Inr (), s)"
| "migrate_specific_branches E repo_dir github_repo_url (branch # branches) s =
     (case retry_subprocess E [''git'', ''fetch'', ''origin'', branch] 3
             (logging INFO (PushingSpecificBranch branch) s) of
        (Inl e, s1) \<Rightarrow> (Inl e, s1)
      | (Inr u, s1) \<Rightarrow>
          (case retry_subprocess E
                  [''git'', ''push'', github_repo_url,
                   ''refs/remotes/origin/'' @ branch @ '':refs/heads/'' @ branch] 3 s1 of
             (Inl e, s2) \<Rightarrow> (Inl e, s2)
           | (Inr v, s2) \<Rightarrow> migrate_specific_branches E repo_dir github_repo_url branches s2))"

text \<open>\<^verbatim>\<open>create_directory_structure\<close> (lines 89-94).\<close>

definition create_directory_structure :: "path \<Rightarrow> string \<Rightarrow> string \<Rightarrow> world \<Rightarrow> path \<times> world" where
  "create_directory_structure base_dir org project s =
     (let org_dir = path_join base_dir org;
          project_dir = path_join org_dir project
      in (project_dir, makedirs project_dir s))"

text \<open>\<^verbatim>\<open>check_github_repo_exists\<close> (lines 96-102).\<close>

definition check_github_repo_exists ::
  "env \<Rightarrow> string \<Rightarrow> string \<Rightarrow> string \<Rightarrow> world \<Rightarrow> (error + bool) \<times> world" where
  "check_github_repo_exists E github_org repo_name token s =
     (let url = ''https://api.github.com/repos/'' @ github_org @ ''/'' @ repo_name;
          hs = get_github_auth_header token
      in case requests_get E url hs s of
           (Inl e, s1) \<Rightarrow> (Inl e, s1)
         | (Inr r, s1) \<Rightarrow> (Inr (status_code r = 200), emit Print s1))"

text \<open>
  The body of the \<^verbatim>\<open>try\<close> (lines 162-179): the clone, when the directory does not
  exist, then the push, unless the run only clones.
\<close>

definition clone_step ::
  "env \<Rightarrow> branch_selector \<Rightarrow> string \<Rightarrow> path \<Rightarrow> string \<Rightarrow> world \<Rightarrow> (error + unit) \<times> world" where
  "clone_step E sel repo_name repo_dir azure_repo_url s =
     (if \<not> path_exists repo_dir s then
        (if sel = SelStr ''all'' then
           retry_subprocess E [''git'', ''clone'', ''--mirror'', azure_repo_url, repo_dir] 3
             (logging INFO (CloningAllBranches repo_name) s)
         else
           retry_subprocess E [''git'', ''clone'', azure_repo_url, repo_dir] 3
             (logging INFO (CloningDefaultBranch repo_name) s))
      else (Inr (), s))"

definition push_step ::
  "env \<Rightarrow> config \<Rightarrow> branch_selector \<Rightarrow> string \<Rightarrow> path \<Rightarrow> world \<Rightarrow> (error + unit) \<times> world" where
  "push_step E cfg sel repo_name repo_dir s =
     (case chdir repo_dir s of
        (Inl e, s1) \<Rightarrow> (Inl e, s1)
      | (Inr u, s1) \<Rightarrow>
          (let github_repo_url =
                 ''https://github.com/'' @ github_organization cfg @ ''/''
                   @ url_quote E (github_target_repo cfg) @ ''.git''
           in if sel = SelStr ''all'' then
                retry_subprocess E [''git'', ''push'', ''--mirror'', github_repo_url] 3
                  (logging INFO (PushingAllBranches repo_name) s1)
              else
                migrate_specific_branches E repo_dir github_repo_url (iterate sel)
                  (logging INFO (PushingSelectedBranches sel repo_name) s1)))"

definition try_body ::
  "env \<Rightarrow> config \<Rightarrow> bool \<Rightarrow> branch_selector \<Rightarrow> string \<Rightarrow> path \<Rightarrow> string \<Rightarrow> world
     \<Rightarrow> (error + unit) \<times> world" where
  "try_body E cfg only_clone_repos sel repo_name repo_dir azure_repo_url s =
     (case clone_step E sel repo_name repo_dir azure_repo_url s of
        (Inl e, s1) \<Rightarrow> (Inl e, s1)
      | (Inr u, s1) \<Rightarrow>
          if \<not> only_clone_repos then push_step E cfg sel repo_name repo_dir s1
          else (Inr (), s1))"

text \<open>
  The clone/push block (lines 158-187): the \<^verbatim>\<open>try\<close>, the \<^verbatim>\<open>except\<close> that logs the
  exception and drops it, and the \<^verbatim>\<open>finally\<close> that saves the checkpoint and changes to
  the base directory.
\<close>

definition clone_push_block ::
  "env \<Rightarrow> config \<Rightarrow> bool \<Rightarrow> branch_selector \<Rightarrow> path \<Rightarrow> path \<Rightarrow> string \<Rightarrow> world
     \<Rightarrow> (error + unit) \<times> world" where
  "clone_push_block E cfg only_clone_repos sel base_dir project_dir repo_name s =
     (let repo_dir = path_join project_dir repo_name;
          azure_repo_url =
            tfs_url cfg @ ''/'' @ azure_devops_organization cfg @ ''/'' @ azure_devops_project cfg
              @ ''/_git/'' @ url_quote E repo_name
      in case try_body E cfg only_clone_repos sel repo_name repo_dir azure_repo_url s of
           (r, s1) \<Rightarrow>
             (let s2 = (case r of
                          Inl e \<Rightarrow> logging ERROR (ErrorWhileProcessing repo_name e) s1
                        | Inr u \<Rightarrow> s1);
                  s3 = save_checkpoint (azure_devops_organization cfg) (azure_devops_project cfg)
                         repo_name s2
              in chdir base_dir s3))"

text \<open>\<^verbatim>\<open>clone_and_push_repositories\<close> (lines 104-187).\<close>

definition clone_and_push_repositories ::
  "env \<Rightarrow> config \<Rightarrow> bool \<Rightarrow> world \<Rightarrow> (error + unit) \<times> world" where
  "clone_and_push_repositories E cfg only_clone_repos s =
     (let azure_org = azure_devops_organization cfg;
          azure_project = azure_devops_project cfg;
          azure_pat = azure_devops_pat_token cfg;
          tfs_repo = tfs_source_repo cfg;
          git_repo = github_target_repo cfg;
          tfs_domain = tfs_url cfg;
          collection_name = azure_devops_organization cfg;
          token = github_token cfg;
          sel = (case specific_branches cfg of None \<Rightarrow> SelStr ''all'' | Some v \<Rightarrow> v);
          base_dir = path_join (cwd s) ''tfs_repo_migration'';
          repo_base_dir = path_join base_dir ''tfs_git_repo'';
          log_dir = path_join base_dir ''tfs_git_migration_log'';
          s1 = makedirs log_dir (makedirs repo_base_dir s);
          s2 = setup_logging E log_dir s1
      in case create_directory_structure repo_base_dir azure_org azure_project s2 of
           (project_dir, s3) \<Rightarrow>
             (let url = tfs_domain @ ''/'' @ azure_org @ ''/'' @ azure_project
                          @ ''/_apis/git/repositories?api-version=5.0''
              in case requests_get E url (get_auth_header E azure_pat) s3 of
                   (Inl e, s4) \<Rightarrow> (Inl e, s4)
                 | (Inr resp, s4) \<Rightarrow>
                     if status_code resp \<noteq> 200 then
                       (Inl (FetchRepositoriesFailed (body_text resp)), s4)
                     else if tfs_repo \<notin> set (value_names resp) then
                       (Inl (RepositoryNotFound tfs_repo), s4)
                     else
                       (case load_checkpoint s4 of
                          (checkpoint, s5) \<Rightarrow>
                            (case find (\<lambda>r. r = tfs_repo) (value_names resp) of
                               None \<Rightarrow> (Inr (), s5)
                             | Some repo_name \<Rightarrow>
                                 if recorded checkpoint collection_name azure_project repo_name then
                                   (Inr (), logging INFO (SkippingAlreadyMigrated repo_name) s5)
                                 else
                                   (case check_github_repo_exists E (github_organization cfg)
                                           git_repo token s5 of
                                      (Inl e, s6) \<Rightarrow> (Inl e, s6)
                                    | (Inr ok, s6) \<Rightarrow>
                                        if \<not> ok then
                                          (Inr (), logging ERROR (GithubRepoMissing git_repo) s6)
                                        else
                                          clone_push_block E cfg only_clone_repos sel base_dir
                                            project_dir repo_name s6)))))"

text \<open>
  \<^verbatim>\<open>main\<close> (lines 189-199), after the flag and the configuration are read: whatever the
  orchestrator raises is logged, and the process ends normally.
\<close>

definition main :: "env \<Rightarrow> config \<Rightarrow> bool \<Rightarrow> world \<Rightarrow> world" where
  "main E cfg only_clone_repos s =
     (case clone_and_push_repositories E cfg only_clone_repos s of
        (Inl e, s1) \<Rightarrow> logging ERROR (ErrorOccurred e) s1
      | (Inr u, s1) \<Rightarrow> s1)"

subsection \<open>Observations\<close>

text \<open>
  The mapping the checkpoint file stands for, as \<^verbatim>\<open>load_checkpoint\<close> returns it and
  \<^verbatim>\<open>save_checkpoint\<close> reads it: the document in the file, or the empty document when
  there is no file.
\<close>

definition ledger :: "world \<Rightarrow> checkpoint" where
  "ledger s = (case checkpoint_file s of None \<Rightarrow> Map.empty | Some d \<Rightarrow> d)"

text \<open>The repositories recorded under a collection and a project.\<close>

definition repos_of :: "checkpoint \<Rightarrow> string \<Rightarrow> string \<Rightarrow> string list" where
  "repos_of ck c p =
     (case ck c of None \<Rightarrow> [] | Some ps \<Rightarrow> (case ps p of None \<Rightarrow> [] | Some rs \<Rightarrow> rs))"

text \<open>
  The external commands, the changes of directory and the documents written to the
  checkpoint file in a list of events, in order.
\<close>

definition commands :: "event list \<Rightarrow> command list" where
  "commands evs = concat (map (\<lambda>e. case e of Run c \<Rightarrow> [c] | _ \<Rightarrow> []) evs)"

definition chdirs :: "event list \<Rightarrow> path list" where
  "chdirs evs = concat (map (\<lambda>e. case e of Chdir p \<Rightarrow> [p] | _ \<Rightarrow> []) evs)"

definition writes :: "event list \<Rightarrow> checkpoint list" where
  "writes evs = concat (map (\<lambda>e. case e of WriteCheckpoint d \<Rightarrow> [d] | _ \<Rightarrow> []) evs)"

definition exits_nonzero :: "proc_outcome \<Rightarrow> bool" where
  "exits_nonzero out = (case out of Exit rc \<Rightarrow> rc \<noteq> 0 | NotStarted \<Rightarrow> False)"

definition is_clone :: "command \<Rightarrow> bool" where
  "is_clone c = (take 2 c = [''git'', ''clone''])"

text \<open>The events of a run: what the trace of the final world adds to that of the first.\<close>

definition since :: "world \<Rightarrow> world \<Rightarrow> event list" where
  "since s s' = drop (length (trace s)) (trace s')"

subsection \<open>The values the orchestrator computes\<close>

text \<open>
  The local variables of \<^verbatim>\<open>clone_and_push_repositories\<close> as functions of the
  configuration, the environment and the starting world, and the two stretches of
  straight-line code before the clone/push block as functions on worlds.
\<close>

definition sel_of :: "config \<Rightarrow> branch_selector" where
  "sel_of cfg = (case specific_branches cfg of None \<Rightarrow> SelStr ''all'' | Some v \<Rightarrow> v)"

definition base_dir_of :: "world \<Rightarrow> path" where
  "base_dir_of s = path_join (cwd s) ''tfs_repo_migration''"

definition repo_base_dir_of :: "world \<Rightarrow> path" where
  "repo_base_dir_of s = path_join (base_dir_of s) ''tfs_git_repo''"

definition log_dir_of :: "world \<Rightarrow> path" where
  "log_dir_of s = path_join (base_dir_of s) ''tfs_git_migration_log''"

definition log_path_of :: "env \<Rightarrow> world \<Rightarrow> path" where
  "log_path_of E s = path_join (log_dir_of s) (''script_log_'' @ timestamp E @ ''.log'')"

definition project_dir_of :: "config \<Rightarrow> world \<Rightarrow> path" where
  "project_dir_of cfg s =
     path_join (path_join (repo_base_dir_of s) (azure_devops_organization cfg))
       (azure_devops_project cfg)"

definition repo_dir_of :: "config \<Rightarrow> world \<Rightarrow> path" where
  "repo_dir_of cfg s = path_join (project_dir_of cfg s) (tfs_source_repo cfg)"

definition azure_repo_url_of :: "env \<Rightarrow> config \<Rightarrow> string" where
  "azure_repo_url_of E cfg =
     tfs_url cfg @ ''/'' @ azure_devops_organization cfg @ ''/'' @ azure_devops_project cfg
       @ ''/_git/'' @ url_quote E (tfs_source_repo cfg)"

definition github_repo_url_of :: "env \<Rightarrow> config \<Rightarrow> string" where
  "github_repo_url_of E cfg =
     ''https://github.com/'' @ github_organization cfg @ ''/''
       @ url_quote E (github_target_repo cfg) @ ''.git''"

definition listing_url :: "config \<Rightarrow> string" where
  "listing_url cfg =
     tfs_url cfg @ ''/'' @ azure_devops_organization cfg @ ''/'' @ azure_devops_project cfg
       @ ''/_apis/git/repositories?api-version=5.0''"

definition github_api_url :: "config \<Rightarrow> string" where
  "github_api_url cfg =
     ''https://api.github.com/repos/'' @ github_organization cfg @ ''/'' @ github_target_repo cfg"

text \<open>The answers of the two servers to the two requests of a run.\<close>

definition listing :: "env \<Rightarrow> config \<Rightarrow> response option" where
  "listing E cfg =
     http_response E (listing_url cfg) (get_auth_header E (azure_devops_pat_token cfg))"

definition github_answer :: "env \<Rightarrow> config \<Rightarrow> response option" where
  "github_answer E cfg =
     http_response E (github_api_url cfg) (get_github_auth_header (github_token cfg))"

text \<open>The listing succeeds and names the source repository (lines 133-141 raise nothing).\<close>

definition lists_repo :: "env \<Rightarrow> config \<Rightarrow> bool" where
  "lists_repo E cfg =
     (case listing E cfg of
        None \<Rightarrow> False
      | Some resp \<Rightarrow> status_code resp = 200 \<and> tfs_source_repo cfg \<in> set (value_names resp))"

text \<open>The status GitHub answers with, when it answers.\<close>

definition github_status :: "env \<Rightarrow> config \<Rightarrow> int option" where
  "github_status E cfg = map_option status_code (github_answer E cfg)"

text \<open>The world after lines 116-131: the directories, the logging, the listing request.\<close>

definition listed :: "env \<Rightarrow> config \<Rightarrow> world \<Rightarrow> world" where
  "listed E cfg s =
     emit (HttpGet (listing_url cfg) (get_auth_header E (azure_devops_pat_token cfg)))
       (makedirs (project_dir_of cfg s)
         (setup_logging E (log_dir_of s)
           (makedirs (log_dir_of s) (makedirs (repo_base_dir_of s) s))))"

text \<open>The world in which the clone/push block starts: after the checkpoint is loaded and
  GitHub has answered.\<close>

definition block_entry :: "env \<Rightarrow> config \<Rightarrow> world \<Rightarrow> world" where
  "block_entry E cfg s =
     emit Print
       (emit (HttpGet (github_api_url cfg) (get_github_auth_header (github_token cfg)))
         (snd (load_checkpoint (listed E cfg s))))"

text \<open>
  A run reaches the clone/push block: the listing names the repository, the ledger does
  not record it, and GitHub answers 200.
\<close>

definition reaches_block :: "env \<Rightarrow> config \<Rightarrow> world \<Rightarrow> bool" where
  "reaches_block E cfg s =
     (lists_repo E cfg
      \<and> \<not> recorded (ledger s) (azure_devops_organization cfg) (azure_devops_project cfg)
            (tfs_source_repo cfg)
      \<and> github_status E cfg = Some 200)"

abbreviation result :: "env \<Rightarrow> config \<Rightarrow> bool \<Rightarrow> world \<Rightarrow> error + unit" where
  "result E cfg oc s \<equiv> fst (clone_and_push_repositories E cfg oc s)"

abbreviation after :: "env \<Rightarrow> config \<Rightarrow> bool \<Rightarrow> world \<Rightarrow> world" where
  "after E cfg oc s \<equiv> snd (clone_and_push_repositories E cfg oc s)"

abbreviation events :: "env \<Rightarrow> config \<Rightarrow> bool \<Rightarrow> world \<Rightarrow> event list" where
  "events E cfg oc s \<equiv> since s (after E cfg oc s)"

text \<open>
  The commands of a list of events, each with the working directory it was run in,
  when the list starts in directory \<open>d\<close>.
\<close>

fun run_cwds :: "path \<Rightarrow> event list \<Rightarrow> (path \<times> command) list" where
  "run_cwds d [] = []"
| "run_cwds d (Chdir p # es) = run_cwds p es"
| "run_cwds d (Run c # es) = (d, c) # run_cwds d es"
| "run_cwds d (e # es) = run_cwds d es"

text \<open>
  A stretch of a run that only logs, sleeps and runs external commands that satisfy
  \<open>P\<close>: the working directory, the root logger and the checkpoint file stay as they
  are, and no directory disappears.
\<close>

definition quiet :: "(command \<Rightarrow> bool) \<Rightarrow> world \<Rightarrow> world \<Rightarrow> bool" where
  "quiet P s s' =
     (cwd s' = cwd s \<and> root_handler s' = root_handler s
      \<and> checkpoint_file s' = checkpoint_file s \<and> dirs s \<subseteq> dirs s'
      \<and> trace s' = trace s @ since s s' \<and> chdirs (since s s') = []
      \<and> writes (since s s') = [] \<and> list_all P (commands (since s s')))"

subsection \<open>A concrete run\<close>

text \<open>
  A configuration, an environment and a starting world to evaluate the script on. The
  environment lists the repository \<open>r\<close> under the source URL, answers the GitHub
  query with the given status, and lets a clone that exits 0 create its directory.
\<close>

definition example_config :: "branch_selector option \<Rightarrow> config" where
  "example_config sel =
     \<lparr>azure_devops_organization = ''o'', azure_devops_project = ''p'',
      azure_devops_pat_token = ''k'', tfs_source_repo = ''r'', github_target_repo = ''g'',
      tfs_url = ''t'', github_token = ''x'', github_organization = ''h'',
      specific_branches = sel\<rparr>"

definition example_env :: "(nat \<Rightarrow> command \<Rightarrow> proc_outcome) \<Rightarrow> int \<Rightarrow> env" where
  "example_env outcome status =
     \<lparr>run_outcome = outcome,
      run_creates = (\<lambda>t c. if is_clone c \<and> outcome t c = Exit 0 then {last c} else {}),
      http_response =
        (\<lambda>url hs. if take 1 url = ''t''
                   then Some \<lparr>status_code = 200, body_text = [], value_names = [''r'']\<rparr>
                   else Some \<lparr>status_code = status, body_text = [], value_names = []\<rparr>),
      b64encode = (\<lambda>x. x), url_quote = (\<lambda>x. x), timestamp = ''0''\<rparr>"

definition example_world :: "checkpoint option \<Rightarrow> world" where
  "example_world ck =
     \<lparr>cwd = ''/w'', root_handler = None, dirs = {''/w''}, checkpoint_file = ck,
      ticks = 0, trace = []\<rparr>"

section \<open>Properties\<close>

subsection \<open>Events and fields\<close>

lemma commands_simps [simp]:
  "commands [] = []" "commands (xs @ ys) = commands xs @ commands ys"
  "commands (Run c # xs) = c # commands xs" "commands (Log l m # xs) = commands xs"
  "commands (Sleep n # xs) = commands xs" "commands (HttpGet u h # xs) = commands xs"
  "commands (WriteCheckpoint d # xs) = commands xs" "commands (Chdir p # xs) = commands xs"
  "commands (Makedirs p # xs) = commands xs" "commands (BasicConfig p # xs) = commands xs"
  "commands (Print # xs) = commands xs"
  by (simp_all add: commands_def)

lemma chdirs_simps [simp]:
  "chdirs [] = []" "chdirs (xs @ ys) = chdirs xs @ chdirs ys"
  "chdirs (Run c # xs) = chdirs xs" "chdirs (Log l m # xs) = chdirs xs"
  "chdirs (Sleep n # xs) = chdirs xs" "chdirs (HttpGet u h # xs) = chdirs xs"
  "chdirs (WriteCheckpoint d # xs) = chdirs xs" "chdirs (Chdir p # xs) = p # chdirs xs"
  "chdirs (Makedirs p # xs) = chdirs xs" "chdirs (BasicConfig p # xs) = chdirs xs"
  "chdirs (Print # xs) = chdirs xs"
  by (simp_all add: chdirs_def)

lemma writes_simps [simp]:
  "writes [] = []" "writes (xs @ ys) = writes xs @ writes ys"
  "writes (Run c # xs) = writes xs" "writes (Log l m # xs) = writes xs"
  "writes (Sleep n # xs) = writes xs" "writes (HttpGet u h # xs) = writes xs"
  "writes (WriteCheckpoint d # xs) = d # writes xs" "writes (Chdir p # xs) = writes xs"
  "writes (Makedirs p # xs) = writes xs" "writes (BasicConfig p # xs) = writes xs"
  "writes (Print # xs) = writes xs"
  by (simp_all add: writes_def)

lemma emit_simps [simp]:
  "cwd (emit e s) = cwd s" "root_handler (emit e s) = root_handler s"
  "dirs (emit e s) = dirs s" "checkpoint_file (emit e s) = checkpoint_file s"
  "ticks (emit e s) = ticks s" "trace (emit e s) = trace s @ [e]"
  by (simp_all add: emit_def)

lemma logging_simps [simp]:
  "cwd (logging l m s) = cwd s" "root_handler (logging l m s) = root_handler s"
  "dirs (logging l m s) = dirs s" "checkpoint_file (logging l m s) = checkpoint_file s"
  "ticks (logging l m s) = ticks s" "trace (logging l m s) = trace s @ [Log l m]"
  by (simp_all add: logging_def)

lemma sleep_simps [simp]:
  "cwd (sleep n s) = cwd s" "root_handler (sleep n s) = root_handler s"
  "dirs (sleep n s) = dirs s" "checkpoint_file (sleep n s) = checkpoint_file s"
  "ticks (sleep n s) = ticks s" "trace (sleep n s) = trace s @ [Sleep n]"
  by (simp_all add: sleep_def)

lemma write_checkpoint_simps [simp]:
  "cwd (write_checkpoint d s) = cwd s" "root_handler (write_checkpoint d s) = root_handler s"
  "dirs (write_checkpoint d s) = dirs s" "checkpoint_file (write_checkpoint d s) = Some d"
  "ticks (write_checkpoint d s) = ticks s"
  "trace (write_checkpoint d s) = trace s @ [WriteCheckpoint d]"
  by (simp_all add: write_checkpoint_def)

subsection \<open>The checkpoint ledger\<close>

lemma recorded_repos_of: "recorded ck c p r = (r \<in> set (repos_of ck c p))"
  by (simp add: recorded_def repos_of_def split: option.splits)

lemma save_checkpoint_present:
  "recorded (ledger s) c p r \<Longrightarrow> save_checkpoint c p r s = s"
  by (auto simp: save_checkpoint_def recorded_def ledger_def Let_def split: option.splits)

lemma save_checkpoint_absent:
  assumes "\<not> recorded (ledger s) c p r"
  shows "save_checkpoint c p r s =
           logging INFO (CheckpointUpdated r c p)
             (write_checkpoint
               ((ledger s)(c \<mapsto> (case ledger s c of None \<Rightarrow> Map.empty | Some ps \<Rightarrow> ps)
                  (p \<mapsto> repos_of (ledger s) c p @ [r]))) s)"
  using assms
  by (auto simp: save_checkpoint_def recorded_def ledger_def repos_of_def Let_def
      split: option.splits)

lemma ledger_save_checkpoint:
  "repos_of (ledger (save_checkpoint c p r s)) c' p' =
     (if c' = c \<and> p' = p \<and> r \<notin> set (repos_of (ledger s) c p)
      then repos_of (ledger s) c p @ [r] else repos_of (ledger s) c' p')"
proof (cases "recorded (ledger s) c p r")
  case True
  then show ?thesis by (simp add: save_checkpoint_present recorded_repos_of)
next
  case False
  then show ?thesis
    by (simp add: save_checkpoint_absent)
      (auto simp: ledger_def repos_of_def recorded_def split: option.splits)
qed

lemma recorded_save_checkpoint:
  "recorded (ledger (save_checkpoint c p r s)) c' p' r' =
     (recorded (ledger s) c' p' r' \<or> (c' = c \<and> p' = p \<and> r' = r))"
  by (auto simp: recorded_repos_of ledger_save_checkpoint)

lemma save_checkpoint_writes:
  "writes (trace (save_checkpoint c p r s)) =
     (if recorded (ledger s) c p r then writes (trace s)
      else writes (trace s) @ [ledger (save_checkpoint c p r s)])"
proof (cases "recorded (ledger s) c p r")
  case True
  then show ?thesis by (simp add: save_checkpoint_present)
next
  case False
  then show ?thesis by (simp add: save_checkpoint_absent) (simp add: ledger_def)
qed

lemma save_checkpoint_file_exists:
  "checkpoint_file (save_checkpoint c p r s) = Some (ledger (save_checkpoint c p r s))"
proof (cases "recorded (ledger s) c p r")
  case True
  then have "checkpoint_file s \<noteq> None"
    by (auto simp: ledger_def recorded_def split: option.splits)
  with True show ?thesis
    by (auto simp: save_checkpoint_present ledger_def)
next
  case False
  then show ?thesis by (simp add: save_checkpoint_absent) (simp add: ledger_def)
qed

text \<open>
  C5. Recording a repository is idempotent. When the repository is already recorded,
  \<^verbatim>\<open>save_checkpoint\<close> returns the world as it found it: nothing is written, nothing is
  logged. When it is not, the repository is appended to the list of its collection and
  project, and the document is written once. A second call after the first changes
  nothing, so the list keeps its length.
\<close>

theorem save_checkpoint_idempotent:
  "(recorded (ledger s) c p r \<longrightarrow> save_checkpoint c p r s = s)
   \<and> (\<not> recorded (ledger s) c p r \<longrightarrow>
        repos_of (ledger (save_checkpoint c p r s)) c p = repos_of (ledger s) c p @ [r]
        \<and> writes (trace (save_checkpoint c p r s))
            = writes (trace s) @ [ledger (save_checkpoint c p r s)])
   \<and> save_checkpoint c p r (save_checkpoint c p r s) = save_checkpoint c p r s
   \<and> length (repos_of (ledger (save_checkpoint c p r (save_checkpoint c p r s))) c p)
       = length (repos_of (ledger (save_checkpoint c p r s)) c p)"
proof -
  have again: "save_checkpoint c p r (save_checkpoint c p r s) = save_checkpoint c p r s"
    by (rule save_checkpoint_present) (simp add: recorded_save_checkpoint)
  have absent: "repos_of (ledger (save_checkpoint c p r s)) c p = repos_of (ledger s) c p @ [r]"
    if "\<not> recorded (ledger s) c p r"
    using that by (simp add: ledger_save_checkpoint recorded_repos_of)
  show ?thesis
    using again absent by (simp add: save_checkpoint_present save_checkpoint_writes)
qed

theorem save_checkpoint_idempotent_witness:
  "\<not> recorded (ledger (example_world None)) ''o'' ''p'' ''r''
   \<and> repos_of (ledger (save_checkpoint ''o'' ''p'' ''r'' (example_world None))) ''o'' ''p'' = [''r'']
   \<and> length (writes (trace (save_checkpoint ''o'' ''p'' ''r'' (example_world None)))) = 1
   \<and> recorded (ledger (save_checkpoint ''o'' ''p'' ''r'' (example_world None))) ''o'' ''p'' ''r''
   \<and> save_checkpoint ''o'' ''p'' ''r'' (save_checkpoint ''o'' ''p'' ''r'' (example_world None))
       = save_checkpoint ''o'' ''p'' ''r'' (example_world None)"
proof -
  have absent: "\<not> recorded (ledger (example_world None)) ''o'' ''p'' ''r''"
    by (simp add: recorded_def ledger_def example_world_def)
  have empty: "repos_of (ledger (example_world None)) ''o'' ''p'' = []"
    "writes (trace (example_world None)) = []"
    by (simp_all add: repos_of_def ledger_def example_world_def)
  show ?thesis
    using absent empty
      save_checkpoint_idempotent [of "example_world None" "''o''" "''p''" "''r''"]
    by (simp add: recorded_repos_of)
qed

text \<open>
  C6. What \<^verbatim>\<open>load_checkpoint\<close> returns after \<^verbatim>\<open>save_checkpoint\<close> is the document that
  was written: the one carried by the write when there was one, the one already in the
  file otherwise. Loading then writes nothing, and a triple is recorded in the loaded
  mapping exactly when it was recorded before or is the triple just saved.
\<close>

theorem checkpoint_round_trip:
  "load_checkpoint (save_checkpoint c p r s)
     = (ledger (save_checkpoint c p r s), save_checkpoint c p r s)
   \<and> (\<not> recorded (ledger s) c p r \<longrightarrow>
        writes (trace (save_checkpoint c p r s))
          = writes (trace s) @ [fst (load_checkpoint (save_checkpoint c p r s))])
   \<and> (recorded (ledger s) c p r \<longrightarrow>
        fst (load_checkpoint (save_checkpoint c p r s)) = ledger s)
   \<and> (\<forall>c' p' r'. recorded (fst (load_checkpoint (save_checkpoint c p r s))) c' p' r'
        = (recorded (ledger s) c' p' r' \<or> (c' = c \<and> p' = p \<and> r' = r)))"
proof -
  have load: "load_checkpoint (save_checkpoint c p r s)
     = (ledger (save_checkpoint c p r s), save_checkpoint c p r s)"
    using save_checkpoint_file_exists [of c p r s] by (simp add: load_checkpoint_def)
  show ?thesis
    unfolding load
    by (simp add: save_checkpoint_writes recorded_save_checkpoint save_checkpoint_present)
qed

theorem checkpoint_round_trip_witness:
  "\<not> recorded (ledger (example_world None)) ''o'' ''p'' ''r''
   \<and> writes (trace (save_checkpoint ''o'' ''p'' ''r'' (example_world None)))
       = [fst (load_checkpoint (save_checkpoint ''o'' ''p'' ''r'' (example_world None)))]
   \<and> recorded (fst (load_checkpoint (save_checkpoint ''o'' ''p'' ''r'' (example_world None))))
       ''o'' ''p'' ''r''
   \<and> recorded (ledger (example_world (Some [''o'' \<mapsto> [''p'' \<mapsto> [''r'']]]))) ''o'' ''p'' ''r''
   \<and> fst (load_checkpoint (save_checkpoint ''o'' ''p'' ''r''
             (example_world (Some [''o'' \<mapsto> [''p'' \<mapsto> [''r'']]]))))
       = [''o'' \<mapsto> [''p'' \<mapsto> [''r'']]]"
proof -
  let ?w = "example_world None"
  let ?v = "example_world (Some [''o'' \<mapsto> [''p'' \<mapsto> [''r'']]])"
  have absent: "\<not> recorded (ledger ?w) ''o'' ''p'' ''r''"
    and no_writes: "writes (trace ?w) = []"
    by (simp_all add: recorded_def ledger_def example_world_def)
  have present: "recorded (ledger ?v) ''o'' ''p'' ''r''"
    and ledger: "ledger ?v = [''o'' \<mapsto> [''p'' \<mapsto> [''r'']]]"
    by (simp_all add: recorded_def ledger_def example_world_def)
  note w = checkpoint_round_trip [of "''o''" "''p''" "''r''" ?w]
  note v = checkpoint_round_trip [of "''o''" "''p''" "''r''" ?v]
  have 1: "writes (trace (save_checkpoint ''o'' ''p'' ''r'' ?w))
       = [fst (load_checkpoint (save_checkpoint ''o'' ''p'' ''r'' ?w))]"
    using w absent no_writes by simp
  have 2: "recorded (fst (load_checkpoint (save_checkpoint ''o'' ''p'' ''r'' ?w))) ''o'' ''p'' ''r''"
    using w by blast
  have 3: "fst (load_checkpoint (save_checkpoint ''o'' ''p'' ''r'' ?v)) = [''o'' \<mapsto> [''p'' \<mapsto> [''r'']]]"
    using v present unfolding ledger by blast
  show ?thesis
    using absent present 1 2 3 by blast
qed

subsection \<open>The retry wrapper\<close>

lemma subprocess_run_world:
  assumes "subprocess_run E c s = (r, s')"
  shows "cwd s' = cwd s" "root_handler s' = root_handler s"
    "checkpoint_file s' = checkpoint_file s" "dirs s' = dirs s \<union> run_creates E (ticks s) c"
    "ticks s' = Suc (ticks s)" "trace s' = trace s @ [Run c]"
  using assms by (auto simp: subprocess_run_def Let_def split: proc_outcome.splits if_splits)

lemma subprocess_run_result:
  "fst (subprocess_run E c s) =
     (case run_outcome E (ticks s) c of
        NotStarted \<Rightarrow> Inl (OSError c)
      | Exit rc \<Rightarrow> if rc = 0 then Inr () else Inl (CalledProcessError c rc))"
  by (simp add: subprocess_run_def Let_def split: proc_outcome.splits)

lemma retry_attempts_failing:
  assumes "\<forall>i<k. exits_nonzero (run_outcome E (ticks s + i) c)"
  shows "\<exists>s1. retry_attempts E c n ([a..<a + k] @ rest) s = retry_attempts E c n rest s1
           \<and> trace s1 = trace s
                @ concat (map (\<lambda>i. [Run c, Log WARNING (CommandFailedRetry c (i + 1) n), Sleep (2 ^ i)])
                    [a..<a + k])
           \<and> ticks s1 = ticks s + k"
  using assms
proof (induction k arbitrary: a s)
  case 0
  have "retry_attempts E c n rest s = retry_attempts E c n rest s \<and> trace s = trace s \<and> ticks s = ticks s"
    by simp
  then show ?case by auto
next
  case (Suc k)
  obtain r s1 where run: "subprocess_run E c s = (r, s1)"
    by (cases "subprocess_run E c s")
  from Suc.prems have "exits_nonzero (run_outcome E (ticks s + 0) c)" by blast
  then obtain rc where rc: "run_outcome E (ticks s) c = Exit rc" "rc \<noteq> 0"
    by (auto simp: exits_nonzero_def split: proc_outcome.splits)
  with run have r: "r = Inl (CalledProcessError c rc)"
    using subprocess_run_result [of E c s] by simp
  define s2 where "s2 = sleep (2 ^ a) (logging WARNING (CommandFailedRetry c (a + 1) n) s1)"
  have t2: "ticks s2 = Suc (ticks s)"
    and tr2: "trace s2 = trace s @ [Run c, Log WARNING (CommandFailedRetry c (a + 1) n), Sleep (2 ^ a)]"
    using subprocess_run_world [OF run] by (simp_all add: s2_def)
  have "\<forall>i<k. exits_nonzero (run_outcome E (ticks s2 + i) c)"
    using Suc.prems t2 by (metis Suc_less_eq add_Suc_shift)
  from Suc.IH [OF this, of "Suc a"] obtain s3 where
    s3: "retry_attempts E c n ([Suc a..<Suc a + k] @ rest) s2 = retry_attempts E c n rest s3"
      "trace s3 = trace s2
         @ concat (map (\<lambda>i. [Run c, Log WARNING (CommandFailedRetry c (i + 1) n), Sleep (2 ^ i)])
             [Suc a..<Suc a + k])"
      "ticks s3 = ticks s2 + k"
    by blast
  have upt: "[a..<a + Suc k] = a # [Suc a..<Suc a + k]"
    by (simp add: upt_conv_Cons)
  have "retry_attempts E c n ([a..<a + Suc k] @ rest) s = retry_attempts E c n rest s3"
    unfolding upt using run r s3(1) by (simp add: s2_def)
  moreover have "trace s3 = trace s
      @ concat (map (\<lambda>i. [Run c, Log WARNING (CommandFailedRetry c (i + 1) n), Sleep (2 ^ i)])
          [a..<a + Suc k])"
    unfolding upt using s3(2) tr2 by simp
  moreover have "ticks s3 = ticks s + Suc k"
    using s3(3) t2 by simp
  ultimately show ?case by blast
qed

text \<open>
  C4. For every command and bound \<open>n\<close>: when each of the \<open>n\<close> invocations exits with a
  code other than zero, \<^verbatim>\<open>retry_subprocess\<close> runs the command exactly \<open>n\<close> times, logs a
  warning and sleeps \<open>2 ^ attempt\<close> after each failed attempt (1, 2, 4, ... for attempts
  0, 1, 2, ...; the last of these delays follows the last attempt), and then raises the
  error that carries the command and \<open>n\<close>. When the first \<open>k < n\<close> invocations fail and
  the next exits zero, it returns right after that invocation: \<open>k\<close> failed attempts with
  their delays, one more run, and nothing after it.
\<close>

theorem retry_subprocess_bound:
  "((\<forall>i<n. exits_nonzero (run_outcome E (ticks s + i) c)) \<longrightarrow>
      fst (retry_subprocess E c n s) = Inl (CommandFailedAfter c n)
      \<and> trace (snd (retry_subprocess E c n s)) = trace s
          @ concat (map (\<lambda>i. [Run c, Log WARNING (CommandFailedRetry c (i + 1) n), Sleep (2 ^ i)])
              [0..<n]))
   \<and> (k < n \<and> (\<forall>i<k. exits_nonzero (run_outcome E (ticks s + i) c))
        \<and> run_outcome E (ticks s + k) c = Exit 0 \<longrightarrow>
      fst (retry_subprocess E c n s) = Inr ()
      \<and> trace (snd (retry_subprocess E c n s)) = trace s
          @ concat (map (\<lambda>i. [Run c, Log WARNING (CommandFailedRetry c (i + 1) n), Sleep (2 ^ i)])
              [0..<k])
          @ [Run c])"
proof (intro conjI impI)
  assume all: "\<forall>i<n. exits_nonzero (run_outcome E (ticks s + i) c)"
  from retry_attempts_failing [OF all, of n 0 "[]"] obtain s1 where
    "retry_attempts E c n [0..<n] s = retry_attempts E c n [] s1"
    "trace s1 = trace s
       @ concat (map (\<lambda>i. [Run c, Log WARNING (CommandFailedRetry c (i + 1) n), Sleep (2 ^ i)]) [0..<n])"
    by auto
  then show "fst (retry_subprocess E c n s) = Inl (CommandFailedAfter c n)"
    and "trace (snd (retry_subprocess E c n s)) = trace s
          @ concat (map (\<lambda>i. [Run c, Log WARNING (CommandFailedRetry c (i + 1) n), Sleep (2 ^ i)])
              [0..<n])"
    by (simp_all add: retry_subprocess_def)
next
  assume h: "k < n \<and> (\<forall>i<k. exits_nonzero (run_outcome E (ticks s + i) c))
        \<and> run_outcome E (ticks s + k) c = Exit 0"
  then have split: "[0..<n] = [0..<0 + k] @ k # [Suc k..<n]"
    by (metis add_0 less_imp_le_nat upt_add_eq_append upt_conv_Cons le0 le_add_diff_inverse)
  from h retry_attempts_failing [of k E s c n 0 "k # [Suc k..<n]"] obtain s1 where
    s1: "retry_attempts E c n ([0..<0 + k] @ k # [Suc k..<n]) s
           = retry_attempts E c n (k # [Suc k..<n]) s1"
      "trace s1 = trace s
       @ concat (map (\<lambda>i. [Run c, Log WARNING (CommandFailedRetry c (i + 1) n), Sleep (2 ^ i)]) [0..<k])"
      "ticks s1 = ticks s + k"
    by auto
  obtain r s2 where run: "subprocess_run E c s1 = (r, s2)"
    by (cases "subprocess_run E c s1")
  have r: "r = Inr ()"
    using subprocess_run_result [of E c s1] run h s1(3) by simp
  have "retry_subprocess E c n s = (Inr (), s2)"
    unfolding retry_subprocess_def split s1(1) using run r by simp
  then show "fst (retry_subprocess E c n s) = Inr ()"
    and "trace (snd (retry_subprocess E c n s)) = trace s
          @ concat (map (\<lambda>i. [Run c, Log WARNING (CommandFailedRetry c (i + 1) n), Sleep (2 ^ i)])
              [0..<k])
          @ [Run c]"
    using subprocess_run_world(6) [OF run] s1(2) by simp_all
qed

theorem retry_subprocess_bound_witness:
  "exits_nonzero (run_outcome (example_env (\<lambda>t c. Exit 1) 200) 0 [''git''])
   \<and> exits_nonzero (run_outcome (example_env (\<lambda>t c. Exit 1) 200) 1 [''git''])
   \<and> exits_nonzero (run_outcome (example_env (\<lambda>t c. Exit 1) 200) 2 [''git''])
   \<and> fst (retry_subprocess (example_env (\<lambda>t c. Exit 1) 200) [''git''] 3 (example_world None))
       = Inl (CommandFailedAfter [''git''] 3)
   \<and> trace (snd (retry_subprocess (example_env (\<lambda>t c. Exit 1) 200) [''git''] 3
                (example_world None)))
       = [Run [''git''], Log WARNING (CommandFailedRetry [''git''] 1 3), Sleep 1,
          Run [''git''], Log WARNING (CommandFailedRetry [''git''] 2 3), Sleep 2,
          Run [''git''], Log WARNING (CommandFailedRetry [''git''] 3 3), Sleep 4]
   \<and> exits_nonzero
        (run_outcome (example_env (\<lambda>t c. if t = 0 then Exit 1 else Exit 0) 200) 0 [''git''])
   \<and> run_outcome (example_env (\<lambda>t c. if t = 0 then Exit 1 else Exit 0) 200) 1 [''git''] = Exit 0
   \<and> fst (retry_subprocess (example_env (\<lambda>t c. if t = 0 then Exit 1 else Exit 0) 200)
            [''git''] 3 (example_world None))
       = Inr ()
   \<and> trace (snd (retry_subprocess (example_env (\<lambda>t c. if t = 0 then Exit 1 else Exit 0) 200)
                [''git''] 3 (example_world None)))
       = [Run [''git''], Log WARNING (CommandFailedRetry [''git''] 1 3), Sleep 1, Run [''git'']]"
proof -
  let ?E = "example_env (\<lambda>t c. Exit 1) 200"
  let ?F = "example_env (\<lambda>t c. if t = 0 then Exit 1 else Exit 0) 200"
  have t0: "ticks (example_world None) = 0" "trace (example_world None) = []"
    by (simp_all add: example_world_def)
  have fails: "\<forall>i<3. exits_nonzero (run_outcome ?E (ticks (example_world None) + i) [''git''])"
    by (simp add: example_env_def exits_nonzero_def)
  have once: "(1::nat) < 3 \<and> (\<forall>i<1. exits_nonzero (run_outcome ?F (ticks (example_world None) + i) [''git'']))
        \<and> run_outcome ?F (ticks (example_world None) + 1) [''git''] = Exit 0"
    by (simp add: example_env_def exits_nonzero_def t0)
  have three: "[0..<3] = [0, 1, 2::nat]" "[0..<1] = [0::nat]"
    by (simp_all add: upt_rec)
  note a = retry_subprocess_bound [of 3 ?E "example_world None" "[''git'']" 0]
  note b = retry_subprocess_bound [of 3 ?F "example_world None" "[''git'']" 1]
  have 1: "fst (retry_subprocess ?E [''git''] 3 (example_world None)) = Inl (CommandFailedAfter [''git''] 3)"
    and 2: "trace (snd (retry_subprocess ?E [''git''] 3 (example_world None)))
       = [Run [''git''], Log WARNING (CommandFailedRetry [''git''] 1 3), Sleep 1,
          Run [''git''], Log WARNING (CommandFailedRetry [''git''] 2 3), Sleep 2,
          Run [''git''], Log WARNING (CommandFailedRetry [''git''] 3 3), Sleep 4]"
    using a fails by (simp_all add: three t0)
  have 3: "fst (retry_subprocess ?F [''git''] 3 (example_world None)) = Inr ()"
    and 4: "trace (snd (retry_subprocess ?F [''git''] 3 (example_world None)))
       = [Run [''git''], Log WARNING (CommandFailedRetry [''git''] 1 3), Sleep 1, Run [''git'']]"
    using b once by (simp_all add: three t0)
  show ?thesis
    using 1 2 3 4 by (simp add: example_env_def exits_nonzero_def)
qed

subsection \<open>The orchestrator before the clone/push block\<close>

lemma since_append: "trace s' = trace s @ evs \<Longrightarrow> since s s' = evs"
  by (simp add: since_def)

lemma makedirs_simps [simp]:
  "cwd (makedirs p s) = cwd s" "root_handler (makedirs p s) = root_handler s"
  "dirs (makedirs p s) = dirs s \<union> set (parents p) \<union> {p}"
  "checkpoint_file (makedirs p s) = checkpoint_file s"
  "ticks (makedirs p s) = ticks s" "trace (makedirs p s) = trace s @ [Makedirs p]"
  by (simp_all add: makedirs_def)

lemma setup_logging_simps [simp]:
  "cwd (setup_logging E d s) = cwd s"
  "root_handler (setup_logging E d s) =
     (case root_handler s of
        None \<Rightarrow> Some (path_join d (''script_log_'' @ timestamp E @ ''.log''))
      | Some h \<Rightarrow> Some h)"
  "dirs (setup_logging E d s) = dirs s"
  "checkpoint_file (setup_logging E d s) = checkpoint_file s"
  "ticks (setup_logging E d s) = ticks s"
  "trace (setup_logging E d s) = trace s
     @ [BasicConfig (path_join d (''script_log_'' @ timestamp E @ ''.log'')),
        Log INFO (LoggingInitialized (path_join d (''script_log_'' @ timestamp E @ ''.log'')))]"
  by (simp_all add: setup_logging_def basicConfig_def Let_def split: option.splits)

lemma listed_simps:
  "cwd (listed E cfg s) = cwd s"
  "root_handler (listed E cfg s) =
     (case root_handler s of None \<Rightarrow> Some (log_path_of E s) | Some h \<Rightarrow> Some h)"
  "checkpoint_file (listed E cfg s) = checkpoint_file s"
  "ticks (listed E cfg s) = ticks s"
  "trace (listed E cfg s) = trace s
     @ [Makedirs (repo_base_dir_of s), Makedirs (log_dir_of s), BasicConfig (log_path_of E s),
        Log INFO (LoggingInitialized (log_path_of E s)), Makedirs (project_dir_of cfg s),
        HttpGet (listing_url cfg) (get_auth_header E (azure_devops_pat_token cfg))]"
  by (simp_all add: listed_def log_path_of_def split: option.splits)

lemma listed_dirs:
  "dirs (listed E cfg s) =
     dirs s \<union> set (parents (repo_base_dir_of s)) \<union> {repo_base_dir_of s}
       \<union> set (parents (log_dir_of s)) \<union> {log_dir_of s}
       \<union> set (parents (project_dir_of cfg s)) \<union> {project_dir_of cfg s}"
  by (simp add: listed_def)

lemma parent_of_child:
  assumes "a \<noteq> []" "last a \<noteq> CHR ''/''" "take 1 b \<noteq> ''/''"
  shows "a \<in> set (parents (path_join a b))"
proof -
  have j: "path_join a b = a @ ''/'' @ b"
    using assms by (simp add: path_join_def)
  have "length a \<in> set (filter (\<lambda>i. (a @ ''/'' @ b) ! i = CHR ''/'') [1..<length (a @ ''/'' @ b)])"
    using assms(1) by (auto simp: nth_append Suc_le_eq)
  then have "take (length a) (a @ ''/'' @ b) \<in> set (parents (a @ ''/'' @ b))"
    unfolding parents_def set_map by (rule imageI)
  then show ?thesis by (simp add: j)
qed

lemma base_dir_shape: "base_dir_of s \<noteq> []" "last (base_dir_of s) = CHR ''n''"
  by (simp_all add: base_dir_of_def path_join_def)

lemma base_dir_listed: "base_dir_of s \<in> dirs (listed E cfg s)"
proof -
  have "base_dir_of s \<in> set (parents (repo_base_dir_of s))"
    unfolding repo_base_dir_of_def
    by (rule parent_of_child) (simp_all add: base_dir_shape)
  then show ?thesis by (simp add: listed_dirs)
qed

lemma find_self: "x \<in> set xs \<Longrightarrow> find (\<lambda>r. r = x) xs = Some x"
  by (induction xs) auto

lemma requests_get_eq:
  "requests_get E url hs s =
     (case http_response E url hs of None \<Rightarrow> Inl (RequestException url) | Some r \<Rightarrow> Inr r,
      emit (HttpGet url hs) s)"
  by (simp add: requests_get_def split: option.splits)

text \<open>The orchestrator up to the listing.\<close>

lemma run_listing:
  "clone_and_push_repositories E cfg oc s =
     (case listing E cfg of
        None \<Rightarrow> (Inl (RequestException (listing_url cfg)), listed E cfg s)
      | Some resp \<Rightarrow>
          if status_code resp \<noteq> 200 then
            (Inl (FetchRepositoriesFailed (body_text resp)), listed E cfg s)
          else if tfs_source_repo cfg \<notin> set (value_names resp) then
            (Inl (RepositoryNotFound (tfs_source_repo cfg)), listed E cfg s)
          else if recorded (fst (load_checkpoint (listed E cfg s)))
                    (azure_devops_organization cfg) (azure_devops_project cfg) (tfs_source_repo cfg)
          then (Inr (), logging INFO (SkippingAlreadyMigrated (tfs_source_repo cfg))
                          (snd (load_checkpoint (listed E cfg s))))
          else
            (case github_answer E cfg of
               None \<Rightarrow> (Inl (RequestException (github_api_url cfg)),
                         emit (HttpGet (github_api_url cfg) (get_github_auth_header (github_token cfg)))
                           (snd (load_checkpoint (listed E cfg s))))
             | Some gh \<Rightarrow>
                 if status_code gh \<noteq> 200 then
                   (Inr (), logging ERROR (GithubRepoMissing (github_target_repo cfg))
                              (block_entry E cfg s))
                 else
                   clone_push_block E cfg oc (sel_of cfg) (base_dir_of s) (project_dir_of cfg s)
                     (tfs_source_repo cfg) (block_entry E cfg s)))"
  by (simp add: clone_and_push_repositories_def Let_def create_directory_structure_def
      requests_get_eq check_github_repo_exists_def listing_def github_answer_def
      listing_url_def github_api_url_def listed_def block_entry_def sel_of_def
      base_dir_of_def repo_base_dir_of_def log_dir_of_def project_dir_of_def find_self
      split: option.splits prod.splits)

subsection \<open>Runs that stop before the clone/push block\<close>

lemma load_checkpoint_eq:
  "load_checkpoint s =
     (ledger s, if checkpoint_file s = None then write_checkpoint Map.empty s else s)"
  by (simp add: load_checkpoint_def ledger_def split: option.splits)

lemma ledger_listed [simp]: "ledger (listed E cfg s) = ledger s"
  by (simp add: ledger_def listed_simps)

lemma block_entry_simps:
  "cwd (block_entry E cfg s) = cwd s"
  "root_handler (block_entry E cfg s) =
     (case root_handler s of None \<Rightarrow> Some (log_path_of E s) | Some h \<Rightarrow> Some h)"
  "checkpoint_file (block_entry E cfg s) = Some (ledger s)"
  "ticks (block_entry E cfg s) = ticks s"
  "dirs (block_entry E cfg s) = dirs (listed E cfg s)"
  "trace (block_entry E cfg s) = trace (listed E cfg s)
     @ (if checkpoint_file s = None then [WriteCheckpoint Map.empty] else [])
     @ [HttpGet (github_api_url cfg) (get_github_auth_header (github_token cfg)), Print]"
  by (auto simp: block_entry_def load_checkpoint_eq listed_simps ledger_def)

lemma ledger_block_entry [simp]: "ledger (block_entry E cfg s) = ledger s"
  by (simp add: ledger_def [of "block_entry E cfg s"] block_entry_simps)

lemma recorded_file_exists: "recorded (ledger s) c p r \<Longrightarrow> checkpoint_file s \<noteq> None"
  by (auto simp: ledger_def recorded_def split: option.splits)

text \<open>A run that finds the repository recorded.\<close>

lemma run_recorded:
  assumes "recorded (ledger s) (azure_devops_organization cfg) (azure_devops_project cfg)
             (tfs_source_repo cfg)"
  shows "clone_and_push_repositories E cfg oc s =
     (case listing E cfg of
        None \<Rightarrow> (Inl (RequestException (listing_url cfg)), listed E cfg s)
      | Some resp \<Rightarrow>
          if status_code resp \<noteq> 200 then
            (Inl (FetchRepositoriesFailed (body_text resp)), listed E cfg s)
          else if tfs_source_repo cfg \<notin> set (value_names resp) then
            (Inl (RepositoryNotFound (tfs_source_repo cfg)), listed E cfg s)
          else (Inr (), logging INFO (SkippingAlreadyMigrated (tfs_source_repo cfg))
                          (listed E cfg s)))"
  using assms recorded_file_exists [OF assms]
  by (simp add: run_listing load_checkpoint_eq listed_simps split: option.splits)

lemma run_recorded_quiet:
  assumes "recorded (ledger s) (azure_devops_organization cfg) (azure_devops_project cfg)
             (tfs_source_repo cfg)"
  shows "commands (events E cfg oc s) = []" "writes (events E cfg oc s) = []"
    "chdirs (events E cfg oc s) = []"
    "checkpoint_file (after E cfg oc s) = checkpoint_file s"
    "cwd (after E cfg oc s) = cwd s"
  by (simp_all add: run_recorded [OF assms] since_def listed_simps split: option.splits)

text \<open>
  C2. When the listing names the repository and the ledger already records the triple,
  the run ends normally at the skip check: its events are the directory creation, the
  logging set-up, the listing request and the skip message, so no request goes to
  GitHub, no external command is run, nothing is written to the checkpoint file, and
  the file and the mapping it holds are what they were.
\<close>

theorem skip_when_recorded:
  "lists_repo E cfg
   \<and> recorded (ledger s) (azure_devops_organization cfg) (azure_devops_project cfg)
       (tfs_source_repo cfg)
   \<longrightarrow>
     result E cfg oc s = Inr ()
     \<and> events E cfg oc s =
         [Makedirs (repo_base_dir_of s), Makedirs (log_dir_of s), BasicConfig (log_path_of E s),
          Log INFO (LoggingInitialized (log_path_of E s)), Makedirs (project_dir_of cfg s),
          HttpGet (listing_url cfg) (get_auth_header E (azure_devops_pat_token cfg)),
          Log INFO (SkippingAlreadyMigrated (tfs_source_repo cfg))]
     \<and> commands (events E cfg oc s) = []
     \<and> writes (events E cfg oc s) = []
     \<and> checkpoint_file (after E cfg oc s) = checkpoint_file s
     \<and> ledger (after E cfg oc s) = ledger s"
proof (intro impI, elim conjE)
  assume lists: "lists_repo E cfg"
    and rec: "recorded (ledger s) (azure_devops_organization cfg) (azure_devops_project cfg)
       (tfs_source_repo cfg)"
  from lists obtain resp where resp: "listing E cfg = Some resp" "status_code resp = 200"
    "tfs_source_repo cfg \<in> set (value_names resp)"
    by (auto simp: lists_repo_def split: option.splits)
  have run: "clone_and_push_repositories E cfg oc s =
      (Inr (), logging INFO (SkippingAlreadyMigrated (tfs_source_repo cfg)) (listed E cfg s))"
    using resp by (simp add: run_recorded [OF rec])
  show "result E cfg oc s = Inr ()
     \<and> events E cfg oc s =
         [Makedirs (repo_base_dir_of s), Makedirs (log_dir_of s), BasicConfig (log_path_of E s),
          Log INFO (LoggingInitialized (log_path_of E s)), Makedirs (project_dir_of cfg s),
          HttpGet (listing_url cfg) (get_auth_header E (azure_devops_pat_token cfg)),
          Log INFO (SkippingAlreadyMigrated (tfs_source_repo cfg))]
     \<and> commands (events E cfg oc s) = []
     \<and> writes (events E cfg oc s) = []
     \<and> checkpoint_file (after E cfg oc s) = checkpoint_file s
     \<and> ledger (after E cfg oc s) = ledger s"
    unfolding run by (simp add: since_def listed_simps ledger_def)
qed

lemma example_simps:
  "listing (example_env out st) (example_config sel)
     = Some \<lparr>status_code = 200, body_text = [], value_names = [''r'']\<rparr>"
  "github_answer (example_env out st) (example_config sel)
     = Some \<lparr>status_code = st, body_text = [], value_names = []\<rparr>"
  "lists_repo (example_env out st) (example_config sel)"
  "github_status (example_env out st) (example_config sel) = Some st"
  by (simp_all add: lists_repo_def github_status_def listing_def github_answer_def
      listing_url_def github_api_url_def example_env_def example_config_def)

theorem skip_when_recorded_witness:
  "lists_repo (example_env (\<lambda>t c. Exit 0) 200) (example_config None)
   \<and> recorded (ledger (example_world (Some [''o'' \<mapsto> [''p'' \<mapsto> [''r'']]]))) ''o'' ''p'' ''r''
   \<and> result (example_env (\<lambda>t c. Exit 0) 200) (example_config None) False
       (example_world (Some [''o'' \<mapsto> [''p'' \<mapsto> [''r'']]])) = Inr ()
   \<and> commands (events (example_env (\<lambda>t c. Exit 0) 200) (example_config None) False
       (example_world (Some [''o'' \<mapsto> [''p'' \<mapsto> [''r'']]]))) = []
   \<and> checkpoint_file (after (example_env (\<lambda>t c. Exit 0) 200) (example_config None) False
       (example_world (Some [''o'' \<mapsto> [''p'' \<mapsto> [''r'']]])))
      = Some [''o'' \<mapsto> [''p'' \<mapsto> [''r'']]]"
proof -
  let ?E = "example_env (\<lambda>t c. Exit 0) 200"
  let ?w = "example_world (Some [''o'' \<mapsto> [''p'' \<mapsto> [''r'']]])"
  have rec: "recorded (ledger ?w) ''o'' ''p'' ''r''"
    and ck: "checkpoint_file ?w = Some [''o'' \<mapsto> [''p'' \<mapsto> [''r'']]]"
    by (simp_all add: recorded_def ledger_def example_world_def)
  have cfg: "azure_devops_organization (example_config None) = ''o''"
    "azure_devops_project (example_config None) = ''p''"
    "tfs_source_repo (example_config None) = ''r''"
    by (simp_all add: example_config_def)
  note t = skip_when_recorded [of ?E "example_config None" ?w False]
  have "result ?E (example_config None) False ?w = Inr ()"
    and "commands (events ?E (example_config None) False ?w) = []"
    and "checkpoint_file (after ?E (example_config None) False ?w) = checkpoint_file ?w"
    using t rec example_simps(3) [of "\<lambda>t c. Exit 0" 200 None] unfolding cfg by blast+
  then show ?thesis
    using rec example_simps(3) [of "\<lambda>t c. Exit 0" 200 None] ck by simp
qed

lemma check_github_repo_exists_eq:
  "check_github_repo_exists E org repo token s =
     (case http_response E (''https://api.github.com/repos/'' @ org @ ''/'' @ repo)
             (get_github_auth_header token) of
        None \<Rightarrow> (Inl (RequestException (''https://api.github.com/repos/'' @ org @ ''/'' @ repo)),
                  emit (HttpGet (''https://api.github.com/repos/'' @ org @ ''/'' @ repo)
                          (get_github_auth_header token)) s)
      | Some r \<Rightarrow> (Inr (status_code r = 200),
                    emit Print (emit (HttpGet (''https://api.github.com/repos/'' @ org @ ''/'' @ repo)
                                        (get_github_auth_header token)) s)))"
  by (simp add: check_github_repo_exists_def requests_get_eq Let_def split: option.splits)

lemma run_github_missing:
  assumes "lists_repo E cfg"
    and "\<not> recorded (ledger s) (azure_devops_organization cfg) (azure_devops_project cfg)
             (tfs_source_repo cfg)"
    and "github_answer E cfg = Some gh" and "status_code gh \<noteq> 200"
  shows "clone_and_push_repositories E cfg oc s =
     (Inr (), logging ERROR (GithubRepoMissing (github_target_repo cfg)) (block_entry E cfg s))"
  using assms
  by (auto simp: run_listing lists_repo_def load_checkpoint_eq split: option.splits)

text \<open>
  C3 (as amended). When GitHub answers the existence check with a status other than
  200, \<^verbatim>\<open>check_github_repo_exists\<close> returns \<open>False\<close> and raises nothing; the run logs
  the error and ends normally; no external command is run, so there is no clone and no
  push; \<^verbatim>\<open>save_checkpoint\<close> is not reached, the mapping of the ledger is what it was and
  does not record the repository. The checkpoint file itself is written at most once,
  by \<^verbatim>\<open>load_checkpoint\<close>, with the empty document, and only when the file did not
  exist.
\<close>

theorem github_missing_stops:
  "lists_repo E cfg
   \<and> \<not> recorded (ledger s) (azure_devops_organization cfg) (azure_devops_project cfg)
         (tfs_source_repo cfg)
   \<and> github_answer E cfg = Some gh \<and> status_code gh \<noteq> 200
   \<longrightarrow>
     fst (check_github_repo_exists E (github_organization cfg) (github_target_repo cfg)
            (github_token cfg) w) = Inr False
     \<and> result E cfg oc s = Inr ()
     \<and> last (trace (after E cfg oc s)) = Log ERROR (GithubRepoMissing (github_target_repo cfg))
     \<and> commands (events E cfg oc s) = []
     \<and> writes (events E cfg oc s) = (if checkpoint_file s = None then [Map.empty] else [])
     \<and> ledger (after E cfg oc s) = ledger s
     \<and> \<not> recorded (ledger (after E cfg oc s)) (azure_devops_organization cfg)
           (azure_devops_project cfg) (tfs_source_repo cfg)"
proof (intro impI, elim conjE)
  assume lists: "lists_repo E cfg"
    and unrec: "\<not> recorded (ledger s) (azure_devops_organization cfg)
                   (azure_devops_project cfg) (tfs_source_repo cfg)"
    and gh: "github_answer E cfg = Some gh" "status_code gh \<noteq> 200"
  note run = run_github_missing [OF lists unrec gh, of oc]
  have check: "fst (check_github_repo_exists E (github_organization cfg) (github_target_repo cfg)
            (github_token cfg) w) = Inr False"
    using gh by (simp add: check_github_repo_exists_eq github_answer_def github_api_url_def)
  have ledger: "ledger (after E cfg oc s) = ledger s"
    unfolding run by (simp add: ledger_def [of "logging _ _ _"] block_entry_simps)
  have events: "events E cfg oc s =
      [Makedirs (repo_base_dir_of s), Makedirs (log_dir_of s), BasicConfig (log_path_of E s),
       Log INFO (LoggingInitialized (log_path_of E s)), Makedirs (project_dir_of cfg s),
       HttpGet (listing_url cfg) (get_auth_header E (azure_devops_pat_token cfg))]
      @ (if checkpoint_file s = None then [WriteCheckpoint Map.empty] else [])
      @ [HttpGet (github_api_url cfg) (get_github_auth_header (github_token cfg)), Print,
         Log ERROR (GithubRepoMissing (github_target_repo cfg))]"
    unfolding run by (simp add: since_def block_entry_simps listed_simps)
  have last: "last (trace (after E cfg oc s)) = Log ERROR (GithubRepoMissing (github_target_repo cfg))"
    unfolding run by simp
  show "fst (check_github_repo_exists E (github_organization cfg) (github_target_repo cfg)
            (github_token cfg) w) = Inr False
     \<and> result E cfg oc s = Inr ()
     \<and> last (trace (after E cfg oc s)) = Log ERROR (GithubRepoMissing (github_target_repo cfg))
     \<and> commands (events E cfg oc s) = []
     \<and> writes (events E cfg oc s) = (if checkpoint_file s = None then [Map.empty] else [])
     \<and> ledger (after E cfg oc s) = ledger s
     \<and> \<not> recorded (ledger (after E cfg oc s)) (azure_devops_organization cfg)
           (azure_devops_project cfg) (tfs_source_repo cfg)"
    using check last unrec unfolding ledger events by (simp add: run)
qed

lemma example_config_simps [simp]:
  "azure_devops_organization (example_config sel) = ''o''"
  "azure_devops_project (example_config sel) = ''p''"
  "azure_devops_pat_token (example_config sel) = ''k''"
  "tfs_source_repo (example_config sel) = ''r''"
  "github_target_repo (example_config sel) = ''g''"
  "tfs_url (example_config sel) = ''t''"
  "github_token (example_config sel) = ''x''"
  "github_organization (example_config sel) = ''h''"
  "specific_branches (example_config sel) = sel"
  by (simp_all add: example_config_def)

lemma example_world_simps [simp]:
  "cwd (example_world ck) = ''/w''" "root_handler (example_world ck) = None"
  "dirs (example_world ck) = {''/w''}" "checkpoint_file (example_world ck) = ck"
  "ticks (example_world ck) = 0" "trace (example_world ck) = []"
  "ledger (example_world None) = Map.empty"
  by (simp_all add: example_world_def ledger_def)

theorem github_missing_stops_witness:
  "lists_repo (example_env (\<lambda>t c. Exit 0) 404) (example_config None)
   \<and> \<not> recorded (ledger (example_world (Some Map.empty))) ''o'' ''p'' ''r''
   \<and> github_status (example_env (\<lambda>t c. Exit 0) 404) (example_config None) = Some 404
   \<and> result (example_env (\<lambda>t c. Exit 0) 404) (example_config None) False
        (example_world (Some Map.empty)) = Inr ()
   \<and> commands (events (example_env (\<lambda>t c. Exit 0) 404) (example_config None) False
        (example_world (Some Map.empty))) = []
   \<and> writes (events (example_env (\<lambda>t c. Exit 0) 404) (example_config None) False
        (example_world (Some Map.empty))) = []
   \<and> \<not> recorded (ledger (after (example_env (\<lambda>t c. Exit 0) 404) (example_config None) False
        (example_world (Some Map.empty)))) ''o'' ''p'' ''r''"
proof -
  let ?E = "example_env (\<lambda>t c. Exit 0) 404"
  let ?c = "example_config None"
  let ?w = "example_world (Some Map.empty)"
  let ?gh = "\<lparr>status_code = 404, body_text = [], value_names = []\<rparr>"
  have unrec: "\<not> recorded (ledger ?w) ''o'' ''p'' ''r''"
    by (simp add: recorded_def ledger_def)
  have hyp: "lists_repo ?E ?c
     \<and> \<not> recorded (ledger ?w) (azure_devops_organization ?c) (azure_devops_project ?c)
           (tfs_source_repo ?c)
     \<and> github_answer ?E ?c = Some ?gh \<and> status_code ?gh \<noteq> 200"
    using unrec by (simp add: example_simps)
  note t = github_missing_stops [of ?E ?c ?w ?gh _ False, rule_format, OF hyp]
  show ?thesis
    using t unrec by (simp add: example_simps)
qed

theorem github_missing_write_counterexample:
  "github_status (example_env (\<lambda>t c. Exit 0) 404) (example_config None) = Some 404
   \<and> checkpoint_file (example_world None) = None
   \<and> writes (events (example_env (\<lambda>t c. Exit 0) 404) (example_config None) False
        (example_world None)) = [Map.empty]
   \<and> checkpoint_file (after (example_env (\<lambda>t c. Exit 0) 404) (example_config None) False
        (example_world None)) = Some Map.empty"
proof -
  let ?E = "example_env (\<lambda>t c. Exit 0) 404"
  let ?c = "example_config None"
  let ?gh = "\<lparr>status_code = 404, body_text = [], value_names = []\<rparr>"
  have run: "clone_and_push_repositories ?E ?c False (example_world None) =
     (Inr (), logging ERROR (GithubRepoMissing (github_target_repo ?c))
                (block_entry ?E ?c (example_world None)))"
    by (rule run_github_missing [where gh = ?gh])
      (simp_all add: example_simps recorded_def)
  show ?thesis
    unfolding run by (simp add: example_simps since_def block_entry_simps listed_simps)
qed

subsection \<open>Stretches that only run commands\<close>

lemma quietI:
  assumes "cwd s' = cwd s" "root_handler s' = root_handler s"
    "checkpoint_file s' = checkpoint_file s" "dirs s \<subseteq> dirs s'"
    "trace s' = trace s @ evs" "chdirs evs = []" "writes evs = []" "list_all P (commands evs)"
  shows "quiet P s s'"
  using assms by (simp add: quiet_def since_def)

lemma quiet_refl: "quiet P s s"
  by (rule quietI [where evs = "[]"]) simp_all

lemma quiet_trans:
  assumes "quiet P s s1" "quiet P s1 s2"
  shows "quiet P s s2"
proof (rule quietI [where evs = "since s s1 @ since s1 s2"])
  show "trace s2 = trace s @ since s s1 @ since s1 s2"
    using assms by (simp add: quiet_def)
qed (use assms in \<open>auto simp: quiet_def\<close>)

lemma quiet_mono:
  assumes "quiet P s s'" "\<And>c. P c \<Longrightarrow> Q c"
  shows "quiet Q s s'"
  using assms by (auto simp: quiet_def list_all_iff)

lemma quiet_logging: "quiet P s (logging l m s)"
  by (rule quietI [where evs = "[Log l m]"]) simp_all

lemma quiet_sleep: "quiet P s (sleep n s)"
  by (rule quietI [where evs = "[Sleep n]"]) simp_all

lemma quiet_after_logging: "quiet P (logging l m s) s' \<Longrightarrow> quiet P s s'"
  by (rule quiet_trans [OF quiet_logging])

lemma quiet_subprocess_run:
  assumes "subprocess_run E c s = (r, s')" "P c"
  shows "quiet P s s'"
  by (rule quietI [where evs = "[Run c]"])
    (use assms subprocess_run_world [OF assms(1)] in auto)

lemma quiet_retry_attempts:
  assumes "P c" "retry_attempts E c n as s = (r, s')"
  shows "quiet P s s'"
  using assms(2)
proof (induction as arbitrary: s)
  case Nil
  then show ?case by (simp add: quiet_refl)
next
  case (Cons a as)
  obtain r1 s1 where run: "subprocess_run E c s = (r1, s1)"
    by (cases "subprocess_run E c s")
  have q1: "quiet P s s1"
    using run assms(1) by (rule quiet_subprocess_run)
  show ?case
  proof (cases r1)
    case (Inr u)
    with Cons.prems run q1 show ?thesis by simp
  next
    case (Inl e)
    show ?thesis
    proof (cases "\<exists>c' rc. e = CalledProcessError c' rc")
      case True
      then obtain c' rc where e: "e = CalledProcessError c' rc" by blast
      let ?s2 = "sleep (2 ^ a) (logging WARNING (CommandFailedRetry c (a + 1) n) s1)"
      have "retry_attempts E c n as ?s2 = (r, s')"
        using Cons.prems run Inl e by simp
      from Cons.IH [OF this] have "quiet P ?s2 s'" .
      moreover have "quiet P s ?s2"
        by (rule quiet_trans [OF quiet_trans [OF q1 quiet_logging] quiet_sleep])
      ultimately show ?thesis by (rule quiet_trans [rotated])
    next
      case False
      then have "(r, s') = (Inl e, s1)"
        using Cons.prems run Inl by (cases e) auto
      with q1 show ?thesis by simp
    qed
  qed
qed

lemma quiet_retry_subprocess:
  assumes "P c" "retry_subprocess E c n s = (r, s')"
  shows "quiet P s s'"
  using assms quiet_retry_attempts by (simp add: retry_subprocess_def)

lemma not_clone_simps [simp]:
  "\<not> is_clone (''git'' # ''fetch'' # xs)" "\<not> is_clone (''git'' # ''push'' # xs)"
  "is_clone (''git'' # ''clone'' # xs)"
  by (simp_all add: is_clone_def)

lemma quiet_migrate_specific_branches:
  assumes "migrate_specific_branches E d url bs s = (r, s')"
  shows "quiet (\<lambda>c. \<not> is_clone c) s s'"
  using assms
proof (induction bs arbitrary: s)
  case Nil
  then show ?case by (simp add: quiet_refl)
next
  case (Cons b bs)
  let ?s0 = "logging INFO (PushingSpecificBranch b) s"
  obtain r1 s1 where f: "retry_subprocess E [''git'', ''fetch'', ''origin'', b] 3 ?s0 = (r1, s1)"
    by (cases "retry_subprocess E [''git'', ''fetch'', ''origin'', b] 3 ?s0")
  have q1: "quiet (\<lambda>c. \<not> is_clone c) s s1"
    by (rule quiet_after_logging, rule quiet_retry_subprocess [OF _ f]) simp
  show ?case
  proof (cases r1)
    case (Inl e)
    with Cons.prems f q1 show ?thesis by simp
  next
    case (Inr u)
    obtain r2 s2 where p: "retry_subprocess E
        [''git'', ''push'', url, ''refs/remotes/origin/'' @ b @ '':refs/heads/'' @ b] 3 s1 = (r2, s2)"
      by (cases "retry_subprocess E
        [''git'', ''push'', url, ''refs/remotes/origin/'' @ b @ '':refs/heads/'' @ b] 3 s1")
    have q2: "quiet (\<lambda>c. \<not> is_clone c) s s2"
      by (rule quiet_trans [OF q1], rule quiet_retry_subprocess [OF _ p]) simp
    show ?thesis
    proof (cases r2)
      case (Inl e)
      with Cons.prems f p Inr q2 show ?thesis by simp
    next
      case (Inr v)
      with Cons.prems f p \<open>r1 = Inr u\<close> have "migrate_specific_branches E d url bs s2 = (r, s')"
        by simp
      from Cons.IH [OF this] q2 show ?thesis by (rule quiet_trans [rotated])
    qed
  qed
qed

lemma quiet_clone_step:
  assumes "clone_step E sel rn rd url s = (r, s')"
  shows "quiet is_clone s s'"
proof (cases "path_exists rd s")
  case True
  with assms show ?thesis by (simp add: clone_step_def quiet_refl)
next
  case False
  show ?thesis
  proof (cases "sel = SelStr ''all''")
    case True
    with assms False have eq: "retry_subprocess E [''git'', ''clone'', ''--mirror'', url, rd] 3
             (logging INFO (CloningAllBranches rn) s) = (r, s')"
      by (simp add: clone_step_def)
    show ?thesis
      by (rule quiet_after_logging, rule quiet_retry_subprocess [OF _ eq]) simp
  next
    case sel: False
    with assms False have eq: "retry_subprocess E [''git'', ''clone'', url, rd] 3
             (logging INFO (CloningDefaultBranch rn) s) = (r, s')"
      by (simp add: clone_step_def)
    show ?thesis
      by (rule quiet_after_logging, rule quiet_retry_subprocess [OF _ eq]) simp
  qed
qed

lemma push_step_cases:
  assumes "push_step E cfg sel rn rd s = (r, s')"
  shows "s' = s \<or> (rd \<in> dirs s \<and> quiet (\<lambda>c. \<not> is_clone c) (emit (Chdir rd) (s\<lparr>cwd := rd\<rparr>)) s')"
proof (cases "rd \<in> dirs s")
  case False
  with assms show ?thesis by (simp add: push_step_def chdir_def)
next
  case True
  let ?s0 = "emit (Chdir rd) (s\<lparr>cwd := rd\<rparr>)"
  let ?url = "''https://github.com/'' @ github_organization cfg @ ''/''
                   @ url_quote E (github_target_repo cfg) @ ''.git''"
  show ?thesis
  proof (cases "sel = SelStr ''all''")
    case all: True
    with assms True have eq: "retry_subprocess E [''git'', ''push'', ''--mirror'', ?url] 3
                  (logging INFO (PushingAllBranches rn) ?s0) = (r, s')"
      by (simp add: push_step_def chdir_def)
    have "quiet (\<lambda>c. \<not> is_clone c) ?s0 s'"
      by (rule quiet_after_logging, rule quiet_retry_subprocess [OF _ eq]) simp
    with True show ?thesis by simp
  next
    case False
    with assms True have "migrate_specific_branches E rd ?url (iterate sel)
                  (logging INFO (PushingSelectedBranches sel rn) ?s0) = (r, s')"
      by (simp add: push_step_def chdir_def)
    from quiet_migrate_specific_branches [OF this] have "quiet (\<lambda>c. \<not> is_clone c) ?s0 s'"
      by (rule quiet_after_logging)
    with True show ?thesis by simp
  qed
qed

subsection \<open>The clone/push block\<close>

lemma quiet_trace: "quiet P s s' \<Longrightarrow> trace s' = trace s @ since s s'"
  by (simp add: quiet_def)

lemma try_body_shape:
  assumes "try_body E cfg oc sel rn rd url s = (r, s1)"
  shows "\<exists>rc sc evp.
     clone_step E sel rn rd url s = (rc, sc)
     \<and> (evp = [] \<or> (\<not> oc \<and> rc = Inr ()
           \<and> (\<exists>evq. evp = Chdir rd # evq \<and> chdirs evq = [] \<and> writes evq = []
                 \<and> list_all (\<lambda>c. \<not> is_clone c) (commands evq))))
     \<and> trace s1 = trace s @ since s sc @ evp
     \<and> checkpoint_file s1 = checkpoint_file s \<and> root_handler s1 = root_handler s
     \<and> dirs s \<subseteq> dirs s1
     \<and> (oc \<longrightarrow> s1 = sc \<and> r = rc)"
proof -
  obtain rc sc where cl: "clone_step E sel rn rd url s = (rc, sc)"
    by (cases "clone_step E sel rn rd url s")
  have q: "quiet is_clone s sc"
    using cl by (rule quiet_clone_step)
  then have qf: "trace sc = trace s @ since s sc" "checkpoint_file sc = checkpoint_file s"
    "root_handler sc = root_handler s" "dirs s \<subseteq> dirs sc"
    by (simp_all add: quiet_def)
  show ?thesis
  proof (cases "s1 = sc \<and> (oc \<longrightarrow> r = rc)")
    case True
    then have "clone_step E sel rn rd url s = (rc, sc)
      \<and> ([] = [] \<or> (\<not> oc \<and> rc = Inr ()
           \<and> (\<exists>evq. [] = Chdir rd # evq \<and> chdirs evq = [] \<and> writes evq = []
                 \<and> list_all (\<lambda>c. \<not> is_clone c) (commands evq))))
      \<and> trace s1 = trace s @ since s sc @ []
      \<and> checkpoint_file s1 = checkpoint_file s \<and> root_handler s1 = root_handler s
      \<and> dirs s \<subseteq> dirs s1 \<and> (oc \<longrightarrow> s1 = sc \<and> r = rc)"
      using cl qf by simp
    then show ?thesis by blast
  next
    case False
    have rc: "rc = Inr ()" and oc: "\<not> oc" and push: "push_step E cfg sel rn rd sc = (r, s1)"
      using assms cl False by (auto simp: try_body_def split: sum.splits if_splits)
    let ?s0 = "emit (Chdir rd) (sc\<lparr>cwd := rd\<rparr>)"
    from push_step_cases [OF push] False oc
    have q2: "quiet (\<lambda>c. \<not> is_clone c) ?s0 s1" by auto
    then have f2: "trace s1 = trace ?s0 @ since ?s0 s1" "checkpoint_file s1 = checkpoint_file ?s0"
      "root_handler s1 = root_handler ?s0" "dirs ?s0 \<subseteq> dirs s1"
      "chdirs (since ?s0 s1) = []" "writes (since ?s0 s1) = []"
      "list_all (\<lambda>c. \<not> is_clone c) (commands (since ?s0 s1))"
      by (simp_all add: quiet_def)
    have "clone_step E sel rn rd url s = (rc, sc)
      \<and> (Chdir rd # since ?s0 s1 = [] \<or> (\<not> oc \<and> rc = Inr ()
           \<and> (\<exists>evq. Chdir rd # since ?s0 s1 = Chdir rd # evq \<and> chdirs evq = [] \<and> writes evq = []
                 \<and> list_all (\<lambda>c. \<not> is_clone c) (commands evq))))
      \<and> trace s1 = trace s @ since s sc @ Chdir rd # since ?s0 s1
      \<and> checkpoint_file s1 = checkpoint_file s \<and> root_handler s1 = root_handler s
      \<and> dirs s \<subseteq> dirs s1 \<and> (oc \<longrightarrow> s1 = sc \<and> r = rc)"
      using cl qf f2 rc oc by auto
    then show ?thesis by blast
  qed
qed

lemma save_checkpoint_frame [simp]:
  "cwd (save_checkpoint c p r s) = cwd s" "root_handler (save_checkpoint c p r s) = root_handler s"
  "dirs (save_checkpoint c p r s) = dirs s" "ticks (save_checkpoint c p r s) = ticks s"
  by (simp_all add: save_checkpoint_def Let_def)

lemma save_checkpoint_trace:
  "trace (save_checkpoint c p r s) = trace s
     @ (if recorded (ledger s) c p r then []
        else [WriteCheckpoint (ledger (save_checkpoint c p r s)), Log INFO (CheckpointUpdated r c p)])"
proof (cases "recorded (ledger s) c p r")
  case True
  then show ?thesis by (simp add: save_checkpoint_present)
next
  case False
  then show ?thesis by (simp add: save_checkpoint_absent) (simp add: ledger_def)
qed

text \<open>What a run that reaches the clone/push block does, in full.\<close>

lemma run_reaches_shape:
  assumes "reaches_block E cfg s"
  shows "\<exists>rc sc r s1 evp.
     clone_step E (sel_of cfg) (tfs_source_repo cfg) (repo_dir_of cfg s) (azure_repo_url_of E cfg)
       (block_entry E cfg s) = (rc, sc)
     \<and> try_body E cfg oc (sel_of cfg) (tfs_source_repo cfg) (repo_dir_of cfg s)
         (azure_repo_url_of E cfg) (block_entry E cfg s) = (r, s1)
     \<and> (oc \<longrightarrow> r = rc)
     \<and> (evp = [] \<or> (\<not> oc \<and> rc = Inr ()
           \<and> (\<exists>evq. evp = Chdir (repo_dir_of cfg s) # evq \<and> chdirs evq = [] \<and> writes evq = []
                 \<and> list_all (\<lambda>c. \<not> is_clone c) (commands evq))))
     \<and> events E cfg oc s =
          since s (block_entry E cfg s) @ since (block_entry E cfg s) sc @ evp
          @ (case r of Inl e \<Rightarrow> [Log ERROR (ErrorWhileProcessing (tfs_source_repo cfg) e)]
             | Inr u \<Rightarrow> [])
          @ [WriteCheckpoint (ledger (after E cfg oc s)),
             Log INFO (CheckpointUpdated (tfs_source_repo cfg) (azure_devops_organization cfg)
                         (azure_devops_project cfg)),
             Chdir (base_dir_of s)]
     \<and> result E cfg oc s = Inr ()
     \<and> cwd (after E cfg oc s) = base_dir_of s
     \<and> root_handler (after E cfg oc s) =
          (case root_handler s of None \<Rightarrow> Some (log_path_of E s) | Some h \<Rightarrow> Some h)
     \<and> checkpoint_file (after E cfg oc s) = Some (ledger (after E cfg oc s))
     \<and> repos_of (ledger (after E cfg oc s)) (azure_devops_organization cfg)
          (azure_devops_project cfg)
        = repos_of (ledger s) (azure_devops_organization cfg) (azure_devops_project cfg)
            @ [tfs_source_repo cfg]"
proof -
  let ?s0 = "block_entry E cfg s"
  let ?rn = "tfs_source_repo cfg"
  let ?c = "azure_devops_organization cfg"
  let ?p = "azure_devops_project cfg"
  from assms obtain resp gh where resp: "listing E cfg = Some resp" "status_code resp = 200"
    "?rn \<in> set (value_names resp)" and gh: "github_answer E cfg = Some gh" "status_code gh = 200"
    and unrec: "\<not> recorded (ledger s) ?c ?p ?rn"
    by (auto simp: reaches_block_def lists_repo_def github_status_def split: option.splits)
  have run: "clone_and_push_repositories E cfg oc s =
      clone_push_block E cfg oc (sel_of cfg) (base_dir_of s) (project_dir_of cfg s) ?rn ?s0"
    using resp gh unrec by (simp add: run_listing load_checkpoint_eq)
  obtain r s1 where tb: "try_body E cfg oc (sel_of cfg) ?rn (repo_dir_of cfg s)
         (azure_repo_url_of E cfg) ?s0 = (r, s1)"
    by (cases "try_body E cfg oc (sel_of cfg) ?rn (repo_dir_of cfg s) (azure_repo_url_of E cfg) ?s0")
  from try_body_shape [OF tb] obtain rc sc evp where
    cl: "clone_step E (sel_of cfg) ?rn (repo_dir_of cfg s) (azure_repo_url_of E cfg) ?s0 = (rc, sc)"
    and evp: "evp = [] \<or> (\<not> oc \<and> rc = Inr ()
           \<and> (\<exists>evq. evp = Chdir (repo_dir_of cfg s) # evq \<and> chdirs evq = [] \<and> writes evq = []
                 \<and> list_all (\<lambda>c. \<not> is_clone c) (commands evq)))"
    and tr1: "trace s1 = trace ?s0 @ since ?s0 sc @ evp"
    and f1: "checkpoint_file s1 = checkpoint_file ?s0" "root_handler s1 = root_handler ?s0"
      "dirs ?s0 \<subseteq> dirs s1"
    and oc: "oc \<longrightarrow> s1 = sc \<and> r = rc"
    by blast
  define s2 where "s2 = (case r of Inl e \<Rightarrow> logging ERROR (ErrorWhileProcessing ?rn e) s1
                          | Inr u \<Rightarrow> s1)"
  define s3 where "s3 = save_checkpoint ?c ?p ?rn s2"
  have f2: "checkpoint_file s2 = Some (ledger s)" "root_handler s2 = root_handler ?s0"
    "dirs ?s0 \<subseteq> dirs s2"
    "trace s2 = trace s1 @ (case r of Inl e \<Rightarrow> [Log ERROR (ErrorWhileProcessing ?rn e)]
                             | Inr u \<Rightarrow> [])"
    using f1 by (auto simp: s2_def block_entry_simps split: sum.splits)
  have l2: "ledger s2 = ledger s"
    by (simp add: ledger_def [of s2] f2)
  have unrec2: "\<not> recorded (ledger s2) ?c ?p ?rn"
    using unrec by (simp add: l2)
  have base: "base_dir_of s \<in> dirs s3"
    using f2(3) base_dir_listed [of s E cfg] by (auto simp: s3_def block_entry_simps)
  have block: "clone_push_block E cfg oc (sel_of cfg) (base_dir_of s) (project_dir_of cfg s) ?rn ?s0
      = (Inr (), emit (Chdir (base_dir_of s)) (s3\<lparr>cwd := base_dir_of s\<rparr>))"
    using tb base
    by (simp add: clone_push_block_def Let_def repo_dir_of_def azure_repo_url_of_def chdir_def
        s3_def s2_def)
  have after: "after E cfg oc s = emit (Chdir (base_dir_of s)) (s3\<lparr>cwd := base_dir_of s\<rparr>)"
    and res: "result E cfg oc s = Inr ()"
    by (simp_all add: run block)
  have l3: "ledger (after E cfg oc s) = ledger s3"
    by (simp add: after ledger_def)
  have tr3: "trace s3 = trace s2
      @ [WriteCheckpoint (ledger s3), Log INFO (CheckpointUpdated ?rn ?c ?p)]"
    using unrec2 by (simp add: s3_def save_checkpoint_trace)
  have "trace ?s0 = trace s @ since s ?s0"
    by (simp add: block_entry_simps listed_simps since_def)
  then have ev: "events E cfg oc s = since s ?s0 @ since ?s0 sc @ evp
      @ (case r of Inl e \<Rightarrow> [Log ERROR (ErrorWhileProcessing ?rn e)] | Inr u \<Rightarrow> [])
      @ [WriteCheckpoint (ledger (after E cfg oc s)), Log INFO (CheckpointUpdated ?rn ?c ?p),
         Chdir (base_dir_of s)]"
    unfolding l3 by (intro since_append) (simp add: after tr3 f2 tr1)
  have ckf: "checkpoint_file (after E cfg oc s) = Some (ledger (after E cfg oc s))"
    unfolding l3 by (simp add: after s3_def save_checkpoint_file_exists)
  have repos: "repos_of (ledger (after E cfg oc s)) ?c ?p = repos_of (ledger s) ?c ?p @ [?rn]"
    unfolding l3 using unrec2 by (simp add: s3_def ledger_save_checkpoint recorded_repos_of l2)
  have root: "root_handler (after E cfg oc s) =
          (case root_handler s of None \<Rightarrow> Some (log_path_of E s) | Some h \<Rightarrow> Some h)"
    by (simp add: after s3_def f2 block_entry_simps)
  have cwd: "cwd (after E cfg oc s) = base_dir_of s"
    by (simp add: after)
  from cl tb oc evp ev res cwd root ckf repos show ?thesis by blast
qed

subsection \<open>The concrete run, evaluated\<close>

lemma example_paths:
  "base_dir_of (example_world ck) = ''/w/tfs_repo_migration''"
  "repo_base_dir_of (example_world ck) = ''/w/tfs_repo_migration/tfs_git_repo''"
  "log_dir_of (example_world ck) = ''/w/tfs_repo_migration/tfs_git_migration_log''"
  "project_dir_of (example_config sel) (example_world ck) = ''/w/tfs_repo_migration/tfs_git_repo/o/p''"
  "repo_dir_of (example_config sel) (example_world ck) = ''/w/tfs_repo_migration/tfs_git_repo/o/p/r''"
  "azure_repo_url_of (example_env out st) (example_config sel) = ''t/o/p/_git/r''"
  "github_repo_url_of (example_env out st) (example_config sel) = ''https://github.com/h/g.git''"
  by (simp_all add: base_dir_of_def repo_base_dir_of_def log_dir_of_def project_dir_of_def
      repo_dir_of_def azure_repo_url_of_def github_repo_url_of_def path_join_def example_env_def)

lemma example_parents:
  "parents ''/w/tfs_repo_migration/tfs_git_repo'' = [''/w'', ''/w/tfs_repo_migration'']"
  "parents ''/w/tfs_repo_migration/tfs_git_migration_log'' = [''/w'', ''/w/tfs_repo_migration'']"
  "parents ''/w/tfs_repo_migration/tfs_git_repo/o/p''
     = [''/w'', ''/w/tfs_repo_migration'', ''/w/tfs_repo_migration/tfs_git_repo'',
        ''/w/tfs_repo_migration/tfs_git_repo/o'']"
  by (simp_all add: parents_def upt_rec)

lemma example_fresh:
  "\<not> path_exists ''/w/tfs_repo_migration/tfs_git_repo/o/p/r''
       (block_entry (example_env out st) (example_config sel) (example_world ck))"
  by (simp add: path_exists_def block_entry_simps listed_dirs example_paths example_parents)

subsection \<open>Failures inside the clone/push block\<close>

lemma later_run_skips:
  assumes "recorded (ledger s2) (azure_devops_organization cfg) (azure_devops_project cfg)
             (tfs_source_repo cfg)"
  shows "commands (events E' cfg oc' s2) = []
     \<and> (lists_repo E' cfg \<longrightarrow>
           result E' cfg oc' s2 = Inr ()
           \<and> last (trace (after E' cfg oc' s2))
               = Log INFO (SkippingAlreadyMigrated (tfs_source_repo cfg)))"
  using run_recorded_quiet(1) [OF assms]
  by (auto simp: run_recorded [OF assms] lists_repo_def split: option.splits)

lemma main_normal: "result E cfg oc s = Inr () \<Longrightarrow> main E cfg oc s = after E cfg oc s"
  by (cases "clone_and_push_repositories E cfg oc s") (simp add: main_def)

text \<open>
  C1. In a run that reaches the clone/push block, an exception raised by the clone or
  the push is caught: the run ends normally (and so does \<^verbatim>\<open>main\<close>, without logging a
  top-level error), the error is logged with the repository's name, and the checkpoint
  is written all the same, so that the ledger records the triple. Any later run that
  starts from this checkpoint file runs no external command, and ends at the skip
  check when its listing names the repository.
\<close>

theorem failure_still_checkpointed:
  "reaches_block E cfg s
   \<and> fst (try_body E cfg oc (sel_of cfg) (tfs_source_repo cfg) (repo_dir_of cfg s)
            (azure_repo_url_of E cfg) (block_entry E cfg s)) = Inl e
   \<longrightarrow>
     result E cfg oc s = Inr ()
     \<and> main E cfg oc s = after E cfg oc s
     \<and> Log ERROR (ErrorWhileProcessing (tfs_source_repo cfg) e) \<in> set (events E cfg oc s)
     \<and> last (writes (events E cfg oc s)) = ledger (after E cfg oc s)
     \<and> checkpoint_file (after E cfg oc s) = Some (ledger (after E cfg oc s))
     \<and> recorded (ledger (after E cfg oc s)) (azure_devops_organization cfg)
           (azure_devops_project cfg) (tfs_source_repo cfg)
     \<and> (\<forall>E' oc' s2. checkpoint_file s2 = checkpoint_file (after E cfg oc s) \<longrightarrow>
           commands (events E' cfg oc' s2) = []
           \<and> (lists_repo E' cfg \<longrightarrow>
                 result E' cfg oc' s2 = Inr ()
                 \<and> last (trace (after E' cfg oc' s2))
                     = Log INFO (SkippingAlreadyMigrated (tfs_source_repo cfg))))"
proof (intro impI, elim conjE)
  assume reaches: "reaches_block E cfg s"
    and fails: "fst (try_body E cfg oc (sel_of cfg) (tfs_source_repo cfg) (repo_dir_of cfg s)
            (azure_repo_url_of E cfg) (block_entry E cfg s)) = Inl e"
  let ?t = "after E cfg oc s"
  let ?c = "azure_devops_organization cfg"
  let ?p = "azure_devops_project cfg"
  let ?rn = "tfs_source_repo cfg"
  from run_reaches_shape [OF reaches, of oc] fails obtain evs where
    ev: "events E cfg oc s = evs @ [Log ERROR (ErrorWhileProcessing ?rn e)]
          @ [WriteCheckpoint (ledger ?t), Log INFO (CheckpointUpdated ?rn ?c ?p),
             Chdir (base_dir_of s)]"
    and res: "result E cfg oc s = Inr ()"
    and ckf: "checkpoint_file ?t = Some (ledger ?t)"
    and repos: "repos_of (ledger ?t) ?c ?p = repos_of (ledger s) ?c ?p @ [?rn]"
    by fastforce
  have rec: "recorded (ledger ?t) ?c ?p ?rn"
    by (simp add: recorded_repos_of repos)
  have later: "commands (events E' cfg oc' s2) = []
           \<and> (lists_repo E' cfg \<longrightarrow>
                 result E' cfg oc' s2 = Inr ()
                 \<and> last (trace (after E' cfg oc' s2)) = Log INFO (SkippingAlreadyMigrated ?rn))"
    if "checkpoint_file s2 = checkpoint_file ?t" for E' oc' s2
  proof -
    have "ledger s2 = ledger ?t"
      using that by (simp add: ledger_def)
    with rec show ?thesis by (intro later_run_skips) simp
  qed
  show "result E cfg oc s = Inr ()
     \<and> main E cfg oc s = after E cfg oc s
     \<and> Log ERROR (ErrorWhileProcessing ?rn e) \<in> set (events E cfg oc s)
     \<and> last (writes (events E cfg oc s)) = ledger ?t
     \<and> checkpoint_file ?t = Some (ledger ?t)
     \<and> recorded (ledger ?t) ?c ?p ?rn
     \<and> (\<forall>E' oc' s2. checkpoint_file s2 = checkpoint_file ?t \<longrightarrow>
           commands (events E' cfg oc' s2) = []
           \<and> (lists_repo E' cfg \<longrightarrow>
                 result E' cfg oc' s2 = Inr ()
                 \<and> last (trace (after E' cfg oc' s2)) = Log INFO (SkippingAlreadyMigrated ?rn)))"
    using res main_normal [OF res] ckf rec later by (simp add: ev)
qed

lemma example_env_simps [simp]:
  "run_outcome (example_env out st) = out"
  "run_creates (example_env out st) = (\<lambda>t c. if is_clone c \<and> out t c = Exit 0 then {last c} else {})"
  "url_quote (example_env out st) = (\<lambda>x. x)"
  "b64encode (example_env out st) = (\<lambda>x. x)"
  "timestamp (example_env out st) = ''0''"
  by (simp_all add: example_env_def)

lemma example_reaches:
  "reaches_block (example_env out 200) (example_config sel) (example_world None)"
  by (simp add: reaches_block_def example_simps recorded_def)

lemma example_push_fails:
  "fst (try_body (example_env (\<lambda>t c. if t = 0 then Exit 0 else Exit 1) 200) (example_config None)
          False (SelStr ''all'') ''r'' ''/w/tfs_repo_migration/tfs_git_repo/o/p/r'' ''t/o/p/_git/r''
          (block_entry (example_env (\<lambda>t c. if t = 0 then Exit 0 else Exit 1) 200)
             (example_config None) (example_world None)))
     = Inl (CommandFailedAfter [''git'', ''push'', ''--mirror'', ''https://github.com/h/g.git''] 3)"
  using example_fresh [of "\<lambda>t c. if t = 0 then Exit 0 else Exit 1" 200 None None]
  by (simp add: try_body_def clone_step_def push_step_def retry_subprocess_def
      subprocess_run_def chdir_def Let_def upt_rec block_entry_simps)

theorem failure_still_checkpointed_witness:
  "reaches_block (example_env (\<lambda>t c. if t = 0 then Exit 0 else Exit 1) 200) (example_config None)
     (example_world None)
   \<and> fst (try_body (example_env (\<lambda>t c. if t = 0 then Exit 0 else Exit 1) 200) (example_config None)
          False (SelStr ''all'') ''r'' ''/w/tfs_repo_migration/tfs_git_repo/o/p/r'' ''t/o/p/_git/r''
          (block_entry (example_env (\<lambda>t c. if t = 0 then Exit 0 else Exit 1) 200)
             (example_config None) (example_world None)))
       = Inl (CommandFailedAfter [''git'', ''push'', ''--mirror'', ''https://github.com/h/g.git''] 3)
   \<and> result (example_env (\<lambda>t c. if t = 0 then Exit 0 else Exit 1) 200) (example_config None)
        False (example_world None) = Inr ()
   \<and> Log ERROR (ErrorWhileProcessing ''r''
         (CommandFailedAfter [''git'', ''push'', ''--mirror'', ''https://github.com/h/g.git''] 3))
       \<in> set (events (example_env (\<lambda>t c. if t = 0 then Exit 0 else Exit 1) 200)
                 (example_config None) False (example_world None))
   \<and> recorded (ledger (after (example_env (\<lambda>t c. if t = 0 then Exit 0 else Exit 1) 200)
        (example_config None) False (example_world None))) ''o'' ''p'' ''r''
   \<and> commands (events (example_env (\<lambda>t c. Exit 0) 200) (example_config None) False
        (after (example_env (\<lambda>t c. if t = 0 then Exit 0 else Exit 1) 200)
           (example_config None) False (example_world None))) = []"
proof -
  let ?E = "example_env (\<lambda>t c. if t = 0 then Exit 0 else Exit 1) 200"
  let ?c = "example_config None"
  let ?w = "example_world None"
  let ?e = "CommandFailedAfter [''git'', ''push'', ''--mirror'', ''https://github.com/h/g.git''] 3"
  have reaches: "reaches_block ?E ?c ?w"
    by (rule example_reaches)
  have fails: "fst (try_body ?E ?c False (SelStr ''all'') ''r''
      ''/w/tfs_repo_migration/tfs_git_repo/o/p/r'' ''t/o/p/_git/r'' (block_entry ?E ?c ?w)) = Inl ?e"
    by (rule example_push_fails)
  have hyp: "reaches_block ?E ?c ?w
     \<and> fst (try_body ?E ?c False (sel_of ?c) (tfs_source_repo ?c) (repo_dir_of ?c ?w)
            (azure_repo_url_of ?E ?c) (block_entry ?E ?c ?w)) = Inl ?e"
    using reaches fails by (simp add: example_paths sel_of_def)
  note t = failure_still_checkpointed [of ?E ?c ?w False ?e, rule_format, OF hyp]
  have later: "commands (events (example_env (\<lambda>t c. Exit 0) 200) ?c False (after ?E ?c False ?w)) = []"
    using t by blast
  show ?thesis
    using reaches fails t later by simp
qed

subsection \<open>Clone-only runs\<close>

lemma entry_events:
  "since s (block_entry E cfg s) =
     [Makedirs (repo_base_dir_of s), Makedirs (log_dir_of s), BasicConfig (log_path_of E s),
      Log INFO (LoggingInitialized (log_path_of E s)), Makedirs (project_dir_of cfg s),
      HttpGet (listing_url cfg) (get_auth_header E (azure_devops_pat_token cfg))]
     @ (if checkpoint_file s = None then [WriteCheckpoint Map.empty] else [])
     @ [HttpGet (github_api_url cfg) (get_github_auth_header (github_token cfg)), Print]"
  by (simp add: since_def block_entry_simps listed_simps)

lemma entry_events_quiet [simp]:
  "commands (since s (block_entry E cfg s)) = []" "chdirs (since s (block_entry E cfg s)) = []"
  by (simp_all add: entry_events)

text \<open>
  C10. A run that reaches the clone/push block with the clone-only flag ends normally;
  every external command it runs is a clone, so no fetch and no push is attempted,
  whether the clone succeeds or not; the ledger records the triple afterwards. Any
  later run that starts from this checkpoint file, with or without the flag, runs no
  external command, and ends at the skip check when its listing names the repository.
\<close>

theorem clone_only_still_checkpointed:
  "reaches_block E cfg s \<longrightarrow>
     result E cfg True s = Inr ()
     \<and> list_all is_clone (commands (events E cfg True s))
     \<and> chdirs (events E cfg True s) = [base_dir_of s]
     \<and> recorded (ledger (after E cfg True s)) (azure_devops_organization cfg)
           (azure_devops_project cfg) (tfs_source_repo cfg)
     \<and> (\<forall>E' oc' s2. checkpoint_file s2 = checkpoint_file (after E cfg True s) \<longrightarrow>
           commands (events E' cfg oc' s2) = []
           \<and> (lists_repo E' cfg \<longrightarrow>
                 result E' cfg oc' s2 = Inr ()
                 \<and> last (trace (after E' cfg oc' s2))
                     = Log INFO (SkippingAlreadyMigrated (tfs_source_repo cfg))))"
proof
  assume reaches: "reaches_block E cfg s"
  let ?t = "after E cfg True s"
  let ?c = "azure_devops_organization cfg"
  let ?p = "azure_devops_project cfg"
  let ?rn = "tfs_source_repo cfg"
  let ?s0 = "block_entry E cfg s"
  from run_reaches_shape [OF reaches, of True] obtain rc sc and r :: "error + unit" and evp where
    cl: "clone_step E (sel_of cfg) ?rn (repo_dir_of cfg s) (azure_repo_url_of E cfg) ?s0 = (rc, sc)"
    and evp: "evp = [] \<or> (\<not> True \<and> rc = Inr ()
           \<and> (\<exists>evq. evp = Chdir (repo_dir_of cfg s) # evq \<and> chdirs evq = [] \<and> writes evq = []
                 \<and> list_all (\<lambda>c. \<not> is_clone c) (commands evq)))"
    and ev0: "events E cfg True s = since s ?s0 @ since ?s0 sc @ evp
          @ (case r of Inl e \<Rightarrow> [Log ERROR (ErrorWhileProcessing ?rn e)] | Inr u \<Rightarrow> [])
          @ [WriteCheckpoint (ledger ?t), Log INFO (CheckpointUpdated ?rn ?c ?p),
             Chdir (base_dir_of s)]"
    and res: "result E cfg True s = Inr ()"
    and repos: "repos_of (ledger ?t) ?c ?p = repos_of (ledger s) ?c ?p @ [?rn]"
    by blast
  from evp ev0 have ev: "events E cfg True s = since s ?s0 @ since ?s0 sc
          @ (case r of Inl e \<Rightarrow> [Log ERROR (ErrorWhileProcessing ?rn e)] | Inr u \<Rightarrow> [])
          @ [WriteCheckpoint (ledger ?t), Log INFO (CheckpointUpdated ?rn ?c ?p),
             Chdir (base_dir_of s)]"
    by simp
  from quiet_clone_step [OF cl]
  have q: "list_all is_clone (commands (since ?s0 sc))" "chdirs (since ?s0 sc) = []"
    by (simp_all add: quiet_def)
  have cmds: "list_all is_clone (commands (events E cfg True s))"
    and cds: "chdirs (events E cfg True s) = [base_dir_of s]"
    using q by (simp_all add: ev split: sum.splits)
  have rec: "recorded (ledger ?t) ?c ?p ?rn"
    by (simp add: recorded_repos_of repos)
  have later: "commands (events E' cfg oc' s2) = []
           \<and> (lists_repo E' cfg \<longrightarrow>
                 result E' cfg oc' s2 = Inr ()
                 \<and> last (trace (after E' cfg oc' s2)) = Log INFO (SkippingAlreadyMigrated ?rn))"
    if "checkpoint_file s2 = checkpoint_file ?t" for E' oc' s2
  proof -
    have "ledger s2 = ledger ?t"
      using that by (simp add: ledger_def)
    with rec show ?thesis by (intro later_run_skips) simp
  qed
  show "result E cfg True s = Inr ()
     \<and> list_all is_clone (commands (events E cfg True s))
     \<and> chdirs (events E cfg True s) = [base_dir_of s]
     \<and> recorded (ledger ?t) ?c ?p ?rn
     \<and> (\<forall>E' oc' s2. checkpoint_file s2 = checkpoint_file ?t \<longrightarrow>
           commands (events E' cfg oc' s2) = []
           \<and> (lists_repo E' cfg \<longrightarrow>
                 result E' cfg oc' s2 = Inr ()
                 \<and> last (trace (after E' cfg oc' s2)) = Log INFO (SkippingAlreadyMigrated ?rn)))"
    using res cmds cds rec later by blast
qed

lemma example_clone_only:
  "clone_and_push_repositories (example_env (\<lambda>t c. Exit 0) 200) (example_config None) True
     (example_world None)
   = (Inr (),
      emit (Chdir ''/w/tfs_repo_migration'')
        ((save_checkpoint ''o'' ''p'' ''r''
           (snd (subprocess_run (example_env (\<lambda>t c. Exit 0) 200)
                   [''git'', ''clone'', ''--mirror'', ''t/o/p/_git/r'',
                    ''/w/tfs_repo_migration/tfs_git_repo/o/p/r'']
                   (logging INFO (CloningAllBranches ''r'')
                      (block_entry (example_env (\<lambda>t c. Exit 0) 200) (example_config None)
                         (example_world None))))))
         \<lparr>cwd := ''/w/tfs_repo_migration''\<rparr>))"
  using example_fresh [of "\<lambda>t c. Exit 0" 200 None None]
  by (simp add: run_listing example_simps load_checkpoint_eq recorded_def clone_push_block_def
      try_body_def clone_step_def retry_subprocess_def subprocess_run_def chdir_def Let_def
      upt_rec block_entry_simps listed_dirs example_paths example_parents sel_of_def
      path_join_def)

theorem clone_only_still_checkpointed_witness:
  "reaches_block (example_env (\<lambda>t c. Exit 0) 200) (example_config None) (example_world None)
   \<and> result (example_env (\<lambda>t c. Exit 0) 200) (example_config None) True (example_world None)
       = Inr ()
   \<and> commands (events (example_env (\<lambda>t c. Exit 0) 200) (example_config None) True
        (example_world None))
       = [[''git'', ''clone'', ''--mirror'', ''t/o/p/_git/r'',
           ''/w/tfs_repo_migration/tfs_git_repo/o/p/r'']]
   \<and> recorded (ledger (after (example_env (\<lambda>t c. Exit 0) 200) (example_config None) True
        (example_world None))) ''o'' ''p'' ''r''
   \<and> commands (events (example_env (\<lambda>t c. Exit 0) 200) (example_config None) False
        (after (example_env (\<lambda>t c. Exit 0) 200) (example_config None) True
           (example_world None))) = []
   \<and> result (example_env (\<lambda>t c. Exit 0) 200) (example_config None) False
        (after (example_env (\<lambda>t c. Exit 0) 200) (example_config None) True
           (example_world None)) = Inr ()
   \<and> last (trace (after (example_env (\<lambda>t c. Exit 0) 200) (example_config None) False
        (after (example_env (\<lambda>t c. Exit 0) 200) (example_config None) True
           (example_world None)))) = Log INFO (SkippingAlreadyMigrated ''r'')"
proof -
  let ?E = "example_env (\<lambda>t c. Exit 0) 200"
  let ?c = "example_config None"
  let ?w = "example_world None"
  have reaches: "reaches_block ?E ?c ?w"
    by (rule example_reaches)
  note t = clone_only_still_checkpointed [of ?E ?c ?w, rule_format, OF reaches]
  have lists: "lists_repo ?E ?c"
    by (rule example_simps)
  have later: "commands (events ?E ?c False (after ?E ?c True ?w)) = []"
    "result ?E ?c False (after ?E ?c True ?w) = Inr ()"
    "last (trace (after ?E ?c False (after ?E ?c True ?w))) = Log INFO (SkippingAlreadyMigrated ''r'')"
    using t lists by auto
  have cmds: "commands (events ?E ?c True ?w)
       = [[''git'', ''clone'', ''--mirror'', ''t/o/p/_git/r'',
           ''/w/tfs_repo_migration/tfs_git_repo/o/p/r'']]"
    unfolding example_clone_only
    by (simp add: since_def save_checkpoint_trace subprocess_run_def Let_def block_entry_simps
        listed_simps)
  show ?thesis
    using reaches t later cmds by simp
qed

subsection \<open>Which clone is run\<close>

lemma retry_attempts_first_run:
  assumes "retry_attempts E c n (a # as) s = (r, s')"
  shows "commands (since s s') \<noteq> []"
proof -
  obtain r1 s1 where run: "subprocess_run E c s = (r1, s1)"
    by (cases "subprocess_run E c s")
  have t1: "trace s1 = trace s @ [Run c]"
    using subprocess_run_world(6) [OF run] .
  have "\<exists>s2 bs. trace s2 = trace s1 @ bs \<and> retry_attempts E c n as s2 = (r, s') \<or> s' = s1"
  proof (cases r1)
    case (Inr u)
    with assms run show ?thesis by simp
  next
    case (Inl e)
    show ?thesis
    proof (cases "\<exists>c' rc. e = CalledProcessError c' rc")
      case True
      then obtain c' rc where e: "e = CalledProcessError c' rc" by blast
      let ?s2 = "sleep (2 ^ a) (logging WARNING (CommandFailedRetry c (a + 1) n) s1)"
      have "retry_attempts E c n as ?s2 = (r, s')"
        using assms run Inl e by simp
      moreover have "trace ?s2 = trace s1 @ [Log WARNING (CommandFailedRetry c (a + 1) n), Sleep (2 ^ a)]"
        by simp
      ultimately show ?thesis by blast
    next
      case False
      then have "s' = s1"
        using assms run Inl by (cases e) auto
      then show ?thesis by simp
    qed
  qed
  then have "\<exists>bs. trace s' = trace s @ Run c # bs"
  proof (elim exE disjE conjE)
    fix s2 bs
    assume a: "trace s2 = trace s1 @ bs" "retry_attempts E c n as s2 = (r, s')"
    have "quiet (\<lambda>c. True) s2 s'"
      by (rule quiet_retry_attempts [OF _ a(2)]) simp
    then have "trace s' = trace s2 @ since s2 s'"
      by (rule quiet_trace)
    with a(1) t1 show "\<exists>bs. trace s' = trace s @ Run c # bs" by simp
  next
    assume "s' = s1"
    with t1 show "\<exists>bs. trace s' = trace s @ Run c # bs" by simp
  qed
  then obtain bs where "trace s' = trace s @ Run c # bs" by blast
  then have "since s s' = Run c # bs"
    by (rule since_append)
  then show ?thesis by simp
qed

lemma since_after_logging: "since s s' = Log l m # since (logging l m s) s'"
  if "trace s' = trace (logging l m s) @ since (logging l m s) s'"
proof -
  from that have "trace s' = trace s @ Log l m # since (logging l m s) s'" by simp
  then show ?thesis by (rule since_append)
qed

lemma retry_subprocess_commands:
  assumes "retry_subprocess E c 3 (logging l m s) = (r, s')"
  shows "commands (since s s') \<noteq> []" "list_all (\<lambda>x. x = c) (commands (since s s'))"
proof -
  have q: "quiet (\<lambda>x. x = c) (logging l m s) s'"
    by (rule quiet_retry_subprocess [OF _ assms]) simp
  then have s: "since s s' = Log l m # since (logging l m s) s'"
    by (intro since_after_logging) (simp add: quiet_def)
  have "retry_attempts E c 3 (0 # [1..<3]) (logging l m s) = (r, s')"
    using assms by (simp add: retry_subprocess_def upt_rec)
  from retry_attempts_first_run [OF this] show "commands (since s s') \<noteq> []"
    by (simp add: s)
  from q show "list_all (\<lambda>x. x = c) (commands (since s s'))"
    by (simp add: s quiet_def)
qed

lemma clone_step_commands:
  assumes "clone_step E sel rn rd url s = (r, sc)"
  shows "path_exists rd s \<Longrightarrow> since s sc = []"
    and "\<not> path_exists rd s \<Longrightarrow> sel = SelStr ''all'' \<Longrightarrow>
           commands (since s sc) \<noteq> []
           \<and> list_all (\<lambda>c. c = [''git'', ''clone'', ''--mirror'', url, rd]) (commands (since s sc))"
    and "\<not> path_exists rd s \<Longrightarrow> sel \<noteq> SelStr ''all'' \<Longrightarrow>
           commands (since s sc) \<noteq> []
           \<and> list_all (\<lambda>c. c = [''git'', ''clone'', url, rd]) (commands (since s sc))"
  using assms retry_subprocess_commands
  by (auto simp: clone_step_def since_def)

lemma filter_all: "list_all P xs \<Longrightarrow> filter P xs = xs"
  by (induction xs) auto

lemma filter_none: "list_all (\<lambda>x. \<not> P x) xs \<Longrightarrow> filter P xs = []"
  by (induction xs) auto

lemma run_clones:
  assumes "reaches_block E cfg s"
  shows "\<exists>rc sc.
     clone_step E (sel_of cfg) (tfs_source_repo cfg) (repo_dir_of cfg s) (azure_repo_url_of E cfg)
       (block_entry E cfg s) = (rc, sc)
     \<and> filter is_clone (commands (events E cfg oc s)) = commands (since (block_entry E cfg s) sc)"
proof -
  let ?s0 = "block_entry E cfg s"
  let ?rn = "tfs_source_repo cfg"
  from run_reaches_shape [OF assms, of oc] obtain rc sc and r :: "error + unit" and evp where
    cl: "clone_step E (sel_of cfg) ?rn (repo_dir_of cfg s) (azure_repo_url_of E cfg) ?s0 = (rc, sc)"
    and evp: "evp = [] \<or> (\<not> oc \<and> rc = Inr ()
           \<and> (\<exists>evq. evp = Chdir (repo_dir_of cfg s) # evq \<and> chdirs evq = [] \<and> writes evq = []
                 \<and> list_all (\<lambda>c. \<not> is_clone c) (commands evq)))"
    and ev: "events E cfg oc s = since s ?s0 @ since ?s0 sc @ evp
          @ (case r of Inl e \<Rightarrow> [Log ERROR (ErrorWhileProcessing ?rn e)] | Inr u \<Rightarrow> [])
          @ [WriteCheckpoint (ledger (after E cfg oc s)),
             Log INFO (CheckpointUpdated ?rn (azure_devops_organization cfg)
                         (azure_devops_project cfg)),
             Chdir (base_dir_of s)]"
    by blast
  from quiet_clone_step [OF cl] have "list_all is_clone (commands (since ?s0 sc))"
    by (simp add: quiet_def)
  then have 1: "filter is_clone (commands (since ?s0 sc)) = commands (since ?s0 sc)"
    by (rule filter_all)
  from evp have 2: "filter is_clone (commands evp) = []"
    by (auto simp: filter_none)
  have "filter is_clone (commands (events E cfg oc s)) = commands (since ?s0 sc)"
    unfolding ev using 1 2 by (simp split: sum.splits)
  with cl show ?thesis by blast
qed

text \<open>
  C8. The selector the orchestrator hands to the clone/push block is the value of
  \<^verbatim>\<open>specific_branches\<close>, and \<open>"all"\<close> when the key is absent. In a run that reaches the
  block: when the clone directory exists, no clone command is run at all; when it does
  not exist and the selector is \<open>"all"\<close>, clone commands are run and each is the mirror
  clone of the source into the directory; when it does not exist and the selector is
  anything else, clone commands are run and each is the plain clone.
\<close>

theorem clone_selection:
  "(specific_branches cfg = None \<longrightarrow> sel_of cfg = SelStr ''all'')
   \<and> (reaches_block E cfg s \<longrightarrow>
        clone_and_push_repositories E cfg oc s
          = clone_push_block E cfg oc (sel_of cfg) (base_dir_of s) (project_dir_of cfg s)
              (tfs_source_repo cfg) (block_entry E cfg s))
   \<and> (reaches_block E cfg s \<and> path_exists (repo_dir_of cfg s) (block_entry E cfg s) \<longrightarrow>
        filter is_clone (commands (events E cfg oc s)) = [])
   \<and> (reaches_block E cfg s \<and> \<not> path_exists (repo_dir_of cfg s) (block_entry E cfg s)
        \<and> sel_of cfg = SelStr ''all'' \<longrightarrow>
        filter is_clone (commands (events E cfg oc s)) \<noteq> []
        \<and> list_all (\<lambda>c. c = [''git'', ''clone'', ''--mirror'', azure_repo_url_of E cfg,
                              repo_dir_of cfg s])
             (filter is_clone (commands (events E cfg oc s))))
   \<and> (reaches_block E cfg s \<and> \<not> path_exists (repo_dir_of cfg s) (block_entry E cfg s)
        \<and> sel_of cfg \<noteq> SelStr ''all'' \<longrightarrow>
        filter is_clone (commands (events E cfg oc s)) \<noteq> []
        \<and> list_all (\<lambda>c. c = [''git'', ''clone'', azure_repo_url_of E cfg, repo_dir_of cfg s])
             (filter is_clone (commands (events E cfg oc s))))"
proof -
  have default: "specific_branches cfg = None \<longrightarrow> sel_of cfg = SelStr ''all''"
    by (simp add: sel_of_def)
  have block: "clone_and_push_repositories E cfg oc s
          = clone_push_block E cfg oc (sel_of cfg) (base_dir_of s) (project_dir_of cfg s)
              (tfs_source_repo cfg) (block_entry E cfg s)"
    if "reaches_block E cfg s"
    using that
    by (auto simp: run_listing load_checkpoint_eq reaches_block_def lists_repo_def
        github_status_def split: option.splits)
  have present: "filter is_clone (commands (events E cfg oc s)) = []"
    if "reaches_block E cfg s" "path_exists (repo_dir_of cfg s) (block_entry E cfg s)"
    using run_clones [OF that(1), of oc] clone_step_commands(1) that(2) by fastforce
  have mirror: "filter is_clone (commands (events E cfg oc s)) \<noteq> []
        \<and> list_all (\<lambda>c. c = [''git'', ''clone'', ''--mirror'', azure_repo_url_of E cfg,
                              repo_dir_of cfg s])
             (filter is_clone (commands (events E cfg oc s)))"
    if "reaches_block E cfg s" "\<not> path_exists (repo_dir_of cfg s) (block_entry E cfg s)"
      "sel_of cfg = SelStr ''all''"
    using run_clones [OF that(1), of oc] clone_step_commands(2) that(2,3) by fastforce
  have plain: "filter is_clone (commands (events E cfg oc s)) \<noteq> []
        \<and> list_all (\<lambda>c. c = [''git'', ''clone'', azure_repo_url_of E cfg, repo_dir_of cfg s])
             (filter is_clone (commands (events E cfg oc s)))"
    if "reaches_block E cfg s" "\<not> path_exists (repo_dir_of cfg s) (block_entry E cfg s)"
      "sel_of cfg \<noteq> SelStr ''all''"
    using run_clones [OF that(1), of oc] clone_step_commands(3) that(2,3) by fastforce
  show ?thesis
    using default block present mirror plain by blast
qed

theorem clone_selection_witness:
  "specific_branches (example_config None) = None
   \<and> sel_of (example_config None) = SelStr ''all''
   \<and> reaches_block (example_env (\<lambda>t c. Exit 0) 200) (example_config None) (example_world None)
   \<and> \<not> path_exists ''/w/tfs_repo_migration/tfs_git_repo/o/p/r''
         (block_entry (example_env (\<lambda>t c. Exit 0) 200) (example_config None) (example_world None))
   \<and> filter is_clone (commands (events (example_env (\<lambda>t c. Exit 0) 200) (example_config None)
        True (example_world None))) \<noteq> []
   \<and> list_all (\<lambda>c. c = [''git'', ''clone'', ''--mirror'', ''t/o/p/_git/r'',
                         ''/w/tfs_repo_migration/tfs_git_repo/o/p/r''])
        (filter is_clone (commands (events (example_env (\<lambda>t c. Exit 0) 200) (example_config None)
           True (example_world None))))
   \<and> sel_of (example_config (Some (SelList [''main'']))) \<noteq> SelStr ''all''
   \<and> filter is_clone (commands (events (example_env (\<lambda>t c. Exit 0) 200)
        (example_config (Some (SelList [''main'']))) False (example_world None))) \<noteq> []
   \<and> list_all (\<lambda>c. c = [''git'', ''clone'', ''t/o/p/_git/r'',
                         ''/w/tfs_repo_migration/tfs_git_repo/o/p/r''])
        (filter is_clone (commands (events (example_env (\<lambda>t c. Exit 0) 200)
           (example_config (Some (SelList [''main'']))) False (example_world None))))
   \<and> path_exists ''/w/tfs_repo_migration/tfs_git_repo/o/p/r''
        (block_entry (example_env (\<lambda>t c. Exit 0) 200) (example_config None)
           ((example_world None)\<lparr>dirs := {''/w'', ''/w/tfs_repo_migration/tfs_git_repo/o/p/r''}\<rparr>))
   \<and> filter is_clone (commands (events (example_env (\<lambda>t c. Exit 0) 200) (example_config None)
        False ((example_world None)\<lparr>dirs := {''/w'', ''/w/tfs_repo_migration/tfs_git_repo/o/p/r''}\<rparr>)))
       = []"
proof -
  let ?E = "example_env (\<lambda>t c. Exit 0) 200"
  let ?c = "example_config None"
  let ?d = "example_config (Some (SelList [''main'']))"
  let ?w = "example_world None"
  let ?rd = "''/w/tfs_repo_migration/tfs_git_repo/o/p/r''"
  let ?v = "(example_world None)\<lparr>dirs := {''/w'', ?rd}\<rparr>"
  have sel: "sel_of ?c = SelStr ''all''" "sel_of ?d \<noteq> SelStr ''all''"
    by (simp_all add: sel_of_def)
  have fresh: "\<not> path_exists ?rd (block_entry ?E ?c ?w)" "\<not> path_exists ?rd (block_entry ?E ?d ?w)"
    by (rule example_fresh)+
  have v: "reaches_block ?E ?c ?v" "repo_dir_of ?c ?v = ?rd"
    "path_exists ?rd (block_entry ?E ?c ?v)"
    by (simp_all add: reaches_block_def example_simps recorded_def ledger_def repo_dir_of_def
        project_dir_of_def repo_base_dir_of_def base_dir_of_def path_join_def path_exists_def
        block_entry_simps listed_dirs)
  note a = clone_selection [of ?c ?E ?w True, unfolded example_paths]
  note b = clone_selection [of ?d ?E ?w False, unfolded example_paths]
  note c = clone_selection [of ?c ?E ?v False, unfolded v(2)]
  have 1: "filter is_clone (commands (events ?E ?c True ?w)) \<noteq> []
     \<and> list_all (\<lambda>c. c = [''git'', ''clone'', ''--mirror'', ''t/o/p/_git/r'', ?rd])
          (filter is_clone (commands (events ?E ?c True ?w)))"
    using a sel(1) fresh(1) example_reaches [of "\<lambda>t c. Exit 0" None]
    by blast
  have 2: "filter is_clone (commands (events ?E ?d False ?w)) \<noteq> []
     \<and> list_all (\<lambda>c. c = [''git'', ''clone'', ''t/o/p/_git/r'', ?rd])
          (filter is_clone (commands (events ?E ?d False ?w)))"
    using b sel(2) fresh(2) example_reaches [of "\<lambda>t c. Exit 0" "Some (SelList [''main''])"]
    by blast
  have 3: "filter is_clone (commands (events ?E ?c False ?v)) = []"
    using c v(1,3) by blast
  show ?thesis
    using 1 2 3 sel fresh(1) v(3) example_reaches [of "\<lambda>t c. Exit 0" None] by simp
qed

subsection \<open>The branch list\<close>

lemma retry_subprocess_first_try:
  assumes "run_outcome E (ticks s) c = Exit 0" "0 < n"
  shows "retry_subprocess E c n s =
           (Inr (), emit (Run c) (s\<lparr>dirs := dirs s \<union> run_creates E (ticks s) c,
                                      ticks := Suc (ticks s)\<rparr>))"
proof -
  from assms(2) have "[0..<n] = 0 # [1..<n]"
    by (simp add: upt_rec)
  with assms(1) show ?thesis
    by (simp add: retry_subprocess_def subprocess_run_def Let_def)
qed

lemma migrate_all_succeed:
  assumes "\<forall>t c. run_outcome E t c = Exit 0"
  shows "fst (migrate_specific_branches E d url bs s) = Inr ()
     \<and> trace (snd (migrate_specific_branches E d url bs s)) = trace s
         @ concat (map (\<lambda>b. [Log INFO (PushingSpecificBranch b),
                               Run [''git'', ''fetch'', ''origin'', b],
                               Run [''git'', ''push'', url,
                                    ''refs/remotes/origin/'' @ b @ '':refs/heads/'' @ b]]) bs)"
proof (induction bs arbitrary: s)
  case Nil
  then show ?case by simp
next
  case (Cons b bs)
  show ?case
    using assms Cons.IH by (simp add: retry_subprocess_first_try)
qed

lemma migrate_append:
  "migrate_specific_branches E d url (bs1 @ bs2) s =
     (case migrate_specific_branches E d url bs1 s of
        (Inl e, s1) \<Rightarrow> (Inl e, s1)
      | (Inr u, s1) \<Rightarrow> migrate_specific_branches E d url bs2 s1)"
  by (induction bs1 arbitrary: s) (auto split: prod.splits sum.splits)

lemma quiet_migrate_branches:
  assumes "migrate_specific_branches E d url bs s = (r, s')"
  shows "quiet (\<lambda>c. \<exists>b\<in>set bs. c = [''git'', ''fetch'', ''origin'', b]
                    \<or> c = [''git'', ''push'', url,
                            ''refs/remotes/origin/'' @ b @ '':refs/heads/'' @ b]) s s'"
  using assms
proof (induction bs arbitrary: s)
  case Nil
  then show ?case by (simp add: quiet_refl)
next
  case (Cons b bs)
  let ?P = "\<lambda>c. \<exists>b\<in>set (b # bs). c = [''git'', ''fetch'', ''origin'', b]
                    \<or> c = [''git'', ''push'', url,
                            ''refs/remotes/origin/'' @ b @ '':refs/heads/'' @ b]"
  let ?s0 = "logging INFO (PushingSpecificBranch b) s"
  obtain r1 s1 where f: "retry_subprocess E [''git'', ''fetch'', ''origin'', b] 3 ?s0 = (r1, s1)"
    by (cases "retry_subprocess E [''git'', ''fetch'', ''origin'', b] 3 ?s0")
  have q1: "quiet ?P s s1"
    by (rule quiet_after_logging, rule quiet_retry_subprocess [OF _ f]) simp
  show ?case
  proof (cases r1)
    case (Inl e)
    with Cons.prems f q1 show ?thesis by simp
  next
    case (Inr u)
    obtain r2 s2 where p: "retry_subprocess E
        [''git'', ''push'', url, ''refs/remotes/origin/'' @ b @ '':refs/heads/'' @ b] 3 s1 = (r2, s2)"
      by (cases "retry_subprocess E
        [''git'', ''push'', url, ''refs/remotes/origin/'' @ b @ '':refs/heads/'' @ b] 3 s1")
    have q2: "quiet ?P s s2"
      by (rule quiet_trans [OF q1], rule quiet_retry_subprocess [OF _ p]) simp
    show ?thesis
    proof (cases r2)
      case (Inl e)
      with Cons.prems f p Inr q2 show ?thesis by simp
    next
      case (Inr v)
      with Cons.prems f p \<open>r1 = Inr u\<close> have "migrate_specific_branches E d url bs s2 = (r, s')"
        by simp
      from Cons.IH [OF this] have "quiet ?P s2 s'"
        by (rule quiet_mono) auto
      with q2 show ?thesis by (rule quiet_trans)
    qed
  qed
qed

text \<open>
  C7. \<^verbatim>\<open>migrate_specific_branches\<close> works through the list in order. When every
  command exits zero, its events are, branch after branch in the order of the list, the
  log line, the fetch of the branch from \<open>origin\<close>, and the push of
  \<open>refs/remotes/origin/<branch>\<close> to \<open>refs/heads/<branch>\<close>. In general, a list
  \<open>bs1 @ bs2\<close> is processed by processing \<open>bs1\<close> to the end and then \<open>bs2\<close> from the
  world \<open>bs1\<close> left; when \<open>bs1\<close> raises, the error is the result and \<open>bs2\<close> is not
  started: the world is the one \<open>bs1\<close> left, and the commands run are fetches and
  pushes of branches of \<open>bs1\<close> only.
\<close>

theorem branches_in_order:
  "((\<forall>t c. run_outcome E t c = Exit 0) \<longrightarrow>
      fst (migrate_specific_branches E d url bs s) = Inr ()
      \<and> since s (snd (migrate_specific_branches E d url bs s))
          = concat (map (\<lambda>b. [Log INFO (PushingSpecificBranch b),
                                Run [''git'', ''fetch'', ''origin'', b],
                                Run [''git'', ''push'', url,
                                     ''refs/remotes/origin/'' @ b @ '':refs/heads/'' @ b]]) bs))
   \<and> migrate_specific_branches E d url (bs1 @ bs2) s
       = (case migrate_specific_branches E d url bs1 s of
            (Inl e, s1) \<Rightarrow> (Inl e, s1)
          | (Inr u, s1) \<Rightarrow> migrate_specific_branches E d url bs2 s1)
   \<and> (fst (migrate_specific_branches E d url bs1 s) = Inl e \<longrightarrow>
        migrate_specific_branches E d url (bs1 @ bs2) s = migrate_specific_branches E d url bs1 s
        \<and> list_all (\<lambda>c. \<exists>b\<in>set bs1. c = [''git'', ''fetch'', ''origin'', b]
                          \<or> c = [''git'', ''push'', url,
                                  ''refs/remotes/origin/'' @ b @ '':refs/heads/'' @ b])
             (commands (since s (snd (migrate_specific_branches E d url (bs1 @ bs2) s)))))"
proof (intro conjI impI)
  assume ok: "\<forall>t c. run_outcome E t c = Exit 0"
  from migrate_all_succeed [OF ok, of d url bs s]
  show "fst (migrate_specific_branches E d url bs s) = Inr ()"
    and "since s (snd (migrate_specific_branches E d url bs s))
          = concat (map (\<lambda>b. [Log INFO (PushingSpecificBranch b),
                                Run [''git'', ''fetch'', ''origin'', b],
                                Run [''git'', ''push'', url,
                                     ''refs/remotes/origin/'' @ b @ '':refs/heads/'' @ b]]) bs)"
    by (simp_all add: since_append)
next
  show "migrate_specific_branches E d url (bs1 @ bs2) s
       = (case migrate_specific_branches E d url bs1 s of
            (Inl e, s1) \<Rightarrow> (Inl e, s1)
          | (Inr u, s1) \<Rightarrow> migrate_specific_branches E d url bs2 s1)"
    by (rule migrate_append)
next
  assume fails: "fst (migrate_specific_branches E d url bs1 s) = Inl e"
  then show abort: "migrate_specific_branches E d url (bs1 @ bs2) s
      = migrate_specific_branches E d url bs1 s"
    by (cases "migrate_specific_branches E d url bs1 s") (simp add: migrate_append)
  obtain r s' where m: "migrate_specific_branches E d url bs1 s = (r, s')"
    by (cases "migrate_specific_branches E d url bs1 s")
  from quiet_migrate_branches [OF m]
  show "list_all (\<lambda>c. \<exists>b\<in>set bs1. c = [''git'', ''fetch'', ''origin'', b]
                          \<or> c = [''git'', ''push'', url,
                                  ''refs/remotes/origin/'' @ b @ '':refs/heads/'' @ b])
             (commands (since s (snd (migrate_specific_branches E d url (bs1 @ bs2) s))))"
    unfolding abort by (simp add: m quiet_def)
qed

theorem branches_in_order_witness:
  "run_outcome (example_env (\<lambda>t c. Exit 0) 200) 0 [''git''] = Exit 0
   \<and> fst (migrate_specific_branches (example_env (\<lambda>t c. Exit 0) 200) ''d'' ''u''
            [''main'', ''feature-x''] (example_world None)) = Inr ()
   \<and> since (example_world None)
        (snd (migrate_specific_branches (example_env (\<lambda>t c. Exit 0) 200) ''d'' ''u''
                [''main'', ''feature-x''] (example_world None)))
       = [Log INFO (PushingSpecificBranch ''main''),
          Run [''git'', ''fetch'', ''origin'', ''main''],
          Run [''git'', ''push'', ''u'', ''refs/remotes/origin/main:refs/heads/main''],
          Log INFO (PushingSpecificBranch ''feature-x''),
          Run [''git'', ''fetch'', ''origin'', ''feature-x''],
          Run [''git'', ''push'', ''u'', ''refs/remotes/origin/feature-x:refs/heads/feature-x'']]
   \<and> fst (migrate_specific_branches (example_env (\<lambda>t c. NotStarted) 200) ''d'' ''u''
            [''main''] (example_world None))
       = Inl (OSError [''git'', ''fetch'', ''origin'', ''main''])
   \<and> migrate_specific_branches (example_env (\<lambda>t c. NotStarted) 200) ''d'' ''u''
        ([''main''] @ [''feature-x'']) (example_world None)
       = migrate_specific_branches (example_env (\<lambda>t c. NotStarted) 200) ''d'' ''u''
           [''main''] (example_world None)
   \<and> commands (since (example_world None)
        (snd (migrate_specific_branches (example_env (\<lambda>t c. NotStarted) 200) ''d'' ''u''
                ([''main''] @ [''feature-x'']) (example_world None))))
       = [[''git'', ''fetch'', ''origin'', ''main'']]"
proof -
  let ?E = "example_env (\<lambda>t c. Exit 0) 200"
  let ?F = "example_env (\<lambda>t c. NotStarted) 200"
  let ?w = "example_world None"
  have ok: "\<forall>t c. run_outcome ?E t c = Exit 0"
    by simp
  have fails: "migrate_specific_branches ?F ''d'' ''u'' [''main''] ?w
      = (Inl (OSError [''git'', ''fetch'', ''origin'', ''main'']),
         emit (Run [''git'', ''fetch'', ''origin'', ''main''])
           ((logging INFO (PushingSpecificBranch ''main'') ?w)\<lparr>dirs := {''/w''}, ticks := Suc 0\<rparr>))"
    by (simp add: retry_subprocess_def subprocess_run_def Let_def upt_rec is_clone_def)
  note a = branches_in_order [of ?E "''d''" "''u''" "[''main'', ''feature-x'']" ?w "[]" "[]" "OSError []"]
  note b = branches_in_order [of ?F "''d''" "''u''" "[]" ?w "[''main'']" "[''feature-x'']"
      "OSError [''git'', ''fetch'', ''origin'', ''main'']"]
  have 1: "fst (migrate_specific_branches ?E ''d'' ''u'' [''main'', ''feature-x''] ?w) = Inr ()"
    and 2: "since ?w (snd (migrate_specific_branches ?E ''d'' ''u'' [''main'', ''feature-x''] ?w))
       = [Log INFO (PushingSpecificBranch ''main''),
          Run [''git'', ''fetch'', ''origin'', ''main''],
          Run [''git'', ''push'', ''u'', ''refs/remotes/origin/main:refs/heads/main''],
          Log INFO (PushingSpecificBranch ''feature-x''),
          Run [''git'', ''fetch'', ''origin'', ''feature-x''],
          Run [''git'', ''push'', ''u'', ''refs/remotes/origin/feature-x:refs/heads/feature-x'']]"
    using a ok by simp_all
  have 3: "migrate_specific_branches ?F ''d'' ''u'' ([''main''] @ [''feature-x'']) ?w
       = migrate_specific_branches ?F ''d'' ''u'' [''main''] ?w"
    using b fails by simp
  have 4: "commands (since ?w (snd (migrate_specific_branches ?F ''d'' ''u''
                ([''main''] @ [''feature-x'']) ?w))) = [[''git'', ''fetch'', ''origin'', ''main'']]"
    unfolding 3 fails by (simp add: since_def)
  show ?thesis
    using 1 2 3 4 fails by simp
qed

subsection \<open>The working directory and the root logger\<close>

lemma run_cwds_quiet:
  "chdirs evs = [] \<Longrightarrow> run_cwds d (evs @ rest) = map (Pair d) (commands evs) @ run_cwds d rest"
proof (induction evs)
  case Nil
  then show ?case by simp
next
  case (Cons a evs)
  then show ?case by (cases a) simp_all
qed

lemma list_all_Pair:
  "list_all (\<lambda>(d, c). Q d c) (map (Pair d) cs) = list_all (Q d) cs"
  by (induction cs) auto

text \<open>
  C9 (as amended). A run that reaches the clone/push block ends normally with the
  working directory set to the base migration directory, whatever happened in the
  block. The only changes of directory are that last one and, before it and only when
  the run is not clone-only, the change to the clone directory at the start of the
  push phase: every clone command is run in the directory the run started in, every
  other command (the fetches and pushes) in the clone directory. The other state of
  the process that the run changes is the root logger: \<^verbatim>\<open>setup_logging\<close> configures it
  with the log file of the run when it had no handler.
\<close>

theorem working_directory:
  "reaches_block E cfg s \<longrightarrow>
     result E cfg oc s = Inr ()
     \<and> cwd (after E cfg oc s) = base_dir_of s
     \<and> (chdirs (events E cfg oc s) = [base_dir_of s]
          \<or> (oc = False \<and> chdirs (events E cfg oc s) = [repo_dir_of cfg s, base_dir_of s]))
     \<and> list_all (\<lambda>(d, c). if is_clone c then d = cwd s else d = repo_dir_of cfg s)
          (run_cwds (cwd s) (events E cfg oc s))
     \<and> root_handler (after E cfg oc s)
         = (case root_handler s of None \<Rightarrow> Some (log_path_of E s) | Some h \<Rightarrow> Some h)"
proof
  assume reaches: "reaches_block E cfg s"
  let ?s0 = "block_entry E cfg s"
  let ?rn = "tfs_source_repo cfg"
  let ?rd = "repo_dir_of cfg s"
  let ?Q = "\<lambda>d c. if is_clone c then d = cwd s else d = ?rd"
  from run_reaches_shape [OF reaches, of oc] obtain rc sc and r :: "error + unit" and evp where
    cl: "clone_step E (sel_of cfg) ?rn ?rd (azure_repo_url_of E cfg) ?s0 = (rc, sc)"
    and evp: "evp = [] \<or> (\<not> oc \<and> rc = Inr ()
           \<and> (\<exists>evq. evp = Chdir ?rd # evq \<and> chdirs evq = [] \<and> writes evq = []
                 \<and> list_all (\<lambda>c. \<not> is_clone c) (commands evq)))"
    and ev: "events E cfg oc s = since s ?s0 @ since ?s0 sc @ evp
          @ (case r of Inl e \<Rightarrow> [Log ERROR (ErrorWhileProcessing ?rn e)] | Inr u \<Rightarrow> [])
          @ [WriteCheckpoint (ledger (after E cfg oc s)),
             Log INFO (CheckpointUpdated ?rn (azure_devops_organization cfg)
                         (azure_devops_project cfg)),
             Chdir (base_dir_of s)]"
    and res: "result E cfg oc s = Inr ()"
    and cwd: "cwd (after E cfg oc s) = base_dir_of s"
    and root: "root_handler (after E cfg oc s)
         = (case root_handler s of None \<Rightarrow> Some (log_path_of E s) | Some h \<Rightarrow> Some h)"
    by blast
  from quiet_clone_step [OF cl]
  have q: "list_all is_clone (commands (since ?s0 sc))" "chdirs (since ?s0 sc) = []"
    by (simp_all add: quiet_def)
  have clones: "list_all (?Q (cwd s)) (commands (since ?s0 sc))"
    using q(1) by (simp add: list_all_iff)
  have cds: "chdirs (events E cfg oc s) = [base_dir_of s]
          \<or> (oc = False \<and> chdirs (events E cfg oc s) = [?rd, base_dir_of s])"
    using evp q(2) by (auto simp: ev split: sum.splits)
  have tail: "run_cwds d
      ((case r of Inl e \<Rightarrow> [Log ERROR (ErrorWhileProcessing ?rn e)] | Inr u \<Rightarrow> [])
       @ [WriteCheckpoint (ledger (after E cfg oc s)),
          Log INFO (CheckpointUpdated ?rn (azure_devops_organization cfg)
                      (azure_devops_project cfg)),
          Chdir (base_dir_of s)]) = []" for d
    by (cases r) simp_all
  have cmds: "list_all (\<lambda>(d, c). ?Q d c) (run_cwds (cwd s) (events E cfg oc s))"
  proof (cases "evp = []")
    case True
    then show ?thesis
      using clones by (simp add: ev run_cwds_quiet q(2) list_all_Pair tail)
  next
    case False
    with evp obtain evq where evq: "evp = Chdir ?rd # evq" "chdirs evq = []"
      "list_all (\<lambda>c. \<not> is_clone c) (commands evq)"
      by blast
    have "list_all (?Q ?rd) (commands evq)"
      using evq(3) by (simp add: list_all_iff)
    then show ?thesis
      using clones by (simp add: ev evq(1) run_cwds_quiet q(2) evq(2) list_all_Pair tail)
  qed
  show "result E cfg oc s = Inr ()
     \<and> cwd (after E cfg oc s) = base_dir_of s
     \<and> (chdirs (events E cfg oc s) = [base_dir_of s]
          \<or> (oc = False \<and> chdirs (events E cfg oc s) = [?rd, base_dir_of s]))
     \<and> list_all (\<lambda>(d, c). ?Q d c) (run_cwds (cwd s) (events E cfg oc s))
     \<and> root_handler (after E cfg oc s)
         = (case root_handler s of None \<Rightarrow> Some (log_path_of E s) | Some h \<Rightarrow> Some h)"
    using res cwd cds cmds root by blast
qed

lemma example_log_path:
  "log_path_of (example_env out st) (example_world ck)
     = ''/w/tfs_repo_migration/tfs_git_migration_log/script_log_0.log''"
  by (simp add: log_path_of_def example_paths path_join_def)

lemma example_full_run:
  "since (example_world None)
     (after (example_env (\<lambda>t c. Exit 0) 200) (example_config None) False (example_world None))
   = [Makedirs ''/w/tfs_repo_migration/tfs_git_repo'',
      Makedirs ''/w/tfs_repo_migration/tfs_git_migration_log'',
      BasicConfig ''/w/tfs_repo_migration/tfs_git_migration_log/script_log_0.log'',
      Log INFO (LoggingInitialized ''/w/tfs_repo_migration/tfs_git_migration_log/script_log_0.log''),
      Makedirs ''/w/tfs_repo_migration/tfs_git_repo/o/p'',
      HttpGet ''t/o/p/_apis/git/repositories?api-version=5.0'' [(''Authorization'', ''Basic :k'')],
      WriteCheckpoint Map.empty,
      HttpGet ''https://api.github.com/repos/h/g'' [(''Authorization'', ''token x'')],
      Print,
      Log INFO (CloningAllBranches ''r''),
      Run [''git'', ''clone'', ''--mirror'', ''t/o/p/_git/r'',
           ''/w/tfs_repo_migration/tfs_git_repo/o/p/r''],
      Chdir ''/w/tfs_repo_migration/tfs_git_repo/o/p/r'',
      Log INFO (PushingAllBranches ''r''),
      Run [''git'', ''push'', ''--mirror'', ''https://github.com/h/g.git''],
      WriteCheckpoint [''o'' \<mapsto> [''p'' \<mapsto> [''r'']]],
      Log INFO (CheckpointUpdated ''r'' ''o'' ''p''),
      Chdir ''/w/tfs_repo_migration'']"
  using example_fresh [of "\<lambda>t c. Exit 0" 200 None None]
  by (simp add: run_listing example_simps load_checkpoint_eq recorded_def clone_push_block_def
      try_body_def clone_step_def push_step_def retry_subprocess_def subprocess_run_def
      chdir_def Let_def upt_rec block_entry_simps listed_dirs listed_simps example_paths
      example_parents example_log_path sel_of_def path_join_def since_def
      save_checkpoint_def ledger_def listing_url_def github_api_url_def get_auth_header_def
      get_github_auth_header_def is_clone_def)

theorem working_directory_witness:
  "reaches_block (example_env (\<lambda>t c. Exit 0) 200) (example_config None) (example_world None)
   \<and> result (example_env (\<lambda>t c. Exit 0) 200) (example_config None) False (example_world None)
       = Inr ()
   \<and> cwd (after (example_env (\<lambda>t c. Exit 0) 200) (example_config None) False (example_world None))
       = ''/w/tfs_repo_migration''
   \<and> chdirs (events (example_env (\<lambda>t c. Exit 0) 200) (example_config None) False
        (example_world None))
       = [''/w/tfs_repo_migration/tfs_git_repo/o/p/r'', ''/w/tfs_repo_migration'']
   \<and> run_cwds ''/w'' (events (example_env (\<lambda>t c. Exit 0) 200) (example_config None) False
        (example_world None))
       = [(''/w'', [''git'', ''clone'', ''--mirror'', ''t/o/p/_git/r'',
                    ''/w/tfs_repo_migration/tfs_git_repo/o/p/r'']),
          (''/w/tfs_repo_migration/tfs_git_repo/o/p/r'',
           [''git'', ''push'', ''--mirror'', ''https://github.com/h/g.git''])]
   \<and> root_handler (after (example_env (\<lambda>t c. Exit 0) 200) (example_config None) False
        (example_world None))
       = Some ''/w/tfs_repo_migration/tfs_git_migration_log/script_log_0.log''"
proof -
  let ?E = "example_env (\<lambda>t c. Exit 0) 200"
  let ?c = "example_config None"
  let ?w = "example_world None"
  have reaches: "reaches_block ?E ?c ?w"
    by (rule example_reaches)
  note t = working_directory [of ?E ?c ?w False, rule_format, OF reaches]
  have 1: "result ?E ?c False ?w = Inr ()"
    and 2: "cwd (after ?E ?c False ?w) = ''/w/tfs_repo_migration''"
    and 3: "root_handler (after ?E ?c False ?w)
       = Some ''/w/tfs_repo_migration/tfs_git_migration_log/script_log_0.log''"
    using t by (simp_all add: example_paths example_log_path)
  show ?thesis
    using reaches 1 2 3 by (simp add: example_full_run)
qed

theorem root_logger_counterexample:
  "root_handler (example_world None) = None
   \<and> root_handler (after (example_env (\<lambda>t c. Exit 0) 200) (example_config None) False
        (example_world None))
       = Some ''/w/tfs_repo_migration/tfs_git_migration_log/script_log_0.log''"
proof -
  let ?E = "example_env (\<lambda>t c. Exit 0) 200"
  have "root_handler (after ?E (example_config None) False (example_world None))
      = (case root_handler (example_world None) of
           None \<Rightarrow> Some (log_path_of ?E (example_world None)) | Some h \<Rightarrow> Some h)"
    using run_reaches_shape [OF example_reaches [of "\<lambda>t c. Exit 0" None], of False] by blast
  then show ?thesis
    by (simp add: example_log_path)
qed

end
